theory Spec2Isabelle
  imports Complex_Main "HOL-Library.AList" "HOL-Library.Log_Nat"
begin

section \<open>Python values and exceptions\<close>

text \<open>
  The raw payload handed to the serializers of \<^verbatim>\<open>web_app/api/serializers/dashboard.py\<close>
  is a nested structure of dictionaries, lists and scalars.  Dictionaries keep their
  insertion order (the loops of the source iterate in that order) and are association lists
  keyed by strings; a well-formed dictionary has distinct keys.  Strings are byte
  strings: the text handled here (digits, signs, field names) is ASCII.  A finite float is the
  rational it denotes.
\<close>

datatype pyval =
    PNone
  | PBool bool
  | PInt int
  | PFloat rat
  | PStr string
  | PList "pyval list"
  | PDict "(string \<times> pyval) list"

type_synonym pydict = "(string \<times> pyval) list"

text \<open>
  The exceptions that cross the code.  \<^verbatim>\<open>except ValueError\<close> in the source catches
  \<open>ValueError\<close> only: \<^verbatim>\<open>decimal.InvalidOperation\<close>,
  \<^verbatim>\<open>decimal.Overflow\<close> and \<^verbatim>\<open>decimal.DivisionByZero\<close> derive from
  \<^verbatim>\<open>ArithmeticError\<close>, and \<^verbatim>\<open>AttributeError\<close> and \<^verbatim>\<open>TypeError\<close>
  are unrelated to it.
\<close>

datatype exn =
    ValueError string
  | AttributeError string
  | TypeError string
  | InvalidOperation string
  | DivisionByZero string
  | Overflow string

fun type_name :: "pyval \<Rightarrow> string" where
  "type_name PNone = ''NoneType''"
| "type_name (PBool _) = ''bool''"
| "type_name (PInt _) = ''int''"
| "type_name (PFloat _) = ''float''"
| "type_name (PStr _) = ''str''"
| "type_name (PList _) = ''list''"
| "type_name (PDict _) = ''dict''"

definition no_attribute :: "pyval \<Rightarrow> string \<Rightarrow> exn" where
  "no_attribute v a =
     AttributeError ([CHR 0x27] @ type_name v @ [CHR 0x27] @ '' object has no attribute ''
                     @ [CHR 0x27] @ a @ [CHR 0x27])"

section \<open>Decimal arithmetic of the standard library\<close>

text \<open>
  \<^verbatim>\<open>Decimal(balance) / Decimal(10**decimals)\<close> and \<^verbatim>\<open>str\<close> of the quotient run in
  the default context of the \<^verbatim>\<open>decimal\<close> module: precision 28, rounding half-even,
  \<open>Emin = -999999\<close>, \<open>Emax = 999999\<close>, traps on \<open>InvalidOperation\<close>,
  \<open>DivisionByZero\<close> and \<open>Overflow\<close>.  A finite decimal is sign, coefficient and
  exponent; the payload of a NaN is a number, \<open>0\<close> for the empty payload.
\<close>

datatype decimal =
    Finite bool nat int
  | Infinity bool
  | QNaN bool nat
  | SNaN bool nat

definition prec :: nat where "prec = 28"
definition Emax :: int where "Emax = 999999"
definition Emin :: int where "Emin = - 999999"
definition Etiny :: int where "Etiny = Emin - int prec + 1"
definition Etop :: int where "Etop = Emax - int prec + 1"

subsection \<open>Digits\<close>

definition is_digit :: "char \<Rightarrow> bool" where
  "is_digit c = (48 \<le> (of_char c :: nat) \<and> (of_char c :: nat) \<le> 57)"

definition digit_val :: "char \<Rightarrow> nat" where
  "digit_val c = of_char c - 48"

definition digit_char :: "nat \<Rightarrow> char" where
  "digit_char n = char_of (48 + n)"

definition nat_of_digits :: "string \<Rightarrow> nat" where
  "nat_of_digits s = foldl (\<lambda>a c. 10 * a + digit_val c) 0 s"

fun str_nat :: "nat \<Rightarrow> string" where
  "str_nat n = (if n < 10 then [digit_char n] else str_nat (n div 10) @ [digit_char (n mod 10)])"

declare str_nat.simps [simp del]

text \<open>The number of digits of a coefficient: \<^verbatim>\<open>len(self._int)\<close>, \<open>1\<close> for zero.\<close>

definition ndigits :: "nat \<Rightarrow> nat" where
  "ndigits n = length (str_nat n)"

subsection \<open>Construction from a string\<close>

text \<open>
  \<^verbatim>\<open>Decimal(s)\<close> strips surrounding whitespace, drops underscores and matches
  the rest, ignoring case, against: an optional sign, then either digits with an optional
  fraction and an optional exponent (at least one digit before the exponent), or
  \<^verbatim>\<open>Inf\<close>/\<^verbatim>\<open>Infinity\<close>, or \<^verbatim>\<open>NaN\<close>/\<^verbatim>\<open>sNaN\<close> followed by payload digits.  No match
  raises \<^verbatim>\<open>InvalidOperation\<close>.
\<close>

definition is_space :: "char \<Rightarrow> bool" where
  "is_space c = (let n = (of_char c :: nat) in (9 \<le> n \<and> n \<le> 13) \<or> (28 \<le> n \<and> n \<le> 32))"

definition strip :: "string \<Rightarrow> string" where
  "strip s = rev (dropWhile is_space (rev (dropWhile is_space s)))"

definition lower :: "char \<Rightarrow> char" where
  "lower c = (let n = (of_char c :: nat) in if 65 \<le> n \<and> n \<le> 90 then char_of (n + 32) else c)"

definition split_sign :: "string \<Rightarrow> bool \<times> string" where
  "split_sign s = (case s of
       c # r \<Rightarrow> if c = CHR ''-'' then (True, r) else if c = CHR ''+'' then (False, r) else (False, s)
     | [] \<Rightarrow> (False, s))"

definition parse_exponent :: "string \<Rightarrow> int option" where
  "parse_exponent s = (case s of
       [] \<Rightarrow> Some 0
     | c # r \<Rightarrow>
         if lower c = CHR ''e'' then
           (let (neg, ds) = split_sign r in
            if ds \<noteq> [] \<and> list_all is_digit ds
            then Some (if neg then - int (nat_of_digits ds) else int (nat_of_digits ds))
            else None)
         else None)"

definition parse_number :: "bool \<Rightarrow> string \<Rightarrow> decimal option" where
  "parse_number sign s =
     (let intpart = takeWhile is_digit s;
          r1 = dropWhile is_digit s;
          has_frac = (r1 \<noteq> [] \<and> hd r1 = CHR ''.'');
          fracpart = (if has_frac then takeWhile is_digit (tl r1) else []);
          r2 = (if has_frac then dropWhile is_digit (tl r1) else r1)
      in if intpart = [] \<and> fracpart = [] then None
         else (case parse_exponent r2 of
                 None \<Rightarrow> None
               | Some e \<Rightarrow>
                   Some (Finite sign (nat_of_digits (intpart @ fracpart)) (e - int (length fracpart)))))"

definition parse_special :: "bool \<Rightarrow> string \<Rightarrow> decimal option" where
  "parse_special sign s =
     (let l = map lower s in
      if l = ''inf'' \<or> l = ''infinity'' then Some (Infinity sign)
      else if take 3 l = ''nan'' \<and> list_all is_digit (drop 3 l)
        then Some (QNaN sign (nat_of_digits (drop 3 l)))
      else if take 4 l = ''snan'' \<and> list_all is_digit (drop 4 l)
        then Some (SNaN sign (nat_of_digits (drop 4 l)))
      else None)"

definition decimal_of_string :: "string \<Rightarrow> decimal option" where
  "decimal_of_string s =
     (let (sign, r) = split_sign (filter (\<lambda>c. c \<noteq> CHR ''_'') (strip s)) in
      case parse_number sign r of
        Some d \<Rightarrow> Some d
      | None \<Rightarrow> parse_special sign r)"

subsection \<open>Rounding to the context and division\<close>

text \<open>
  \<^verbatim>\<open>Decimal._fix\<close>: a coefficient of more than \<open>prec\<close> digits, or an exponent below
  \<open>Etiny\<close>, is rounded half-even; an adjusted exponent above \<open>Emax\<close> raises the
  trapped \<open>Overflow\<close>.  The untrapped signals (\<open>Inexact\<close>, \<open>Rounded\<close>,
  \<open>Subnormal\<close>, \<open>Underflow\<close>, \<open>Clamped\<close>) only set flags and are left out.
\<close>

definition decimal_fix :: "decimal \<Rightarrow> exn + decimal" where
  "decimal_fix x = (case x of
      Finite s c e \<Rightarrow>
        if c = 0 then Inr (Finite s 0 (min (max e Etiny) Emax))
        else
          let exp_min0 = int (ndigits c) + e - int prec in
          if exp_min0 > Etop then Inl (Overflow ''above Emax'')
          else
            let exp_min = max exp_min0 Etiny in
            if e < exp_min then
              let digits = int (ndigits c) + e - exp_min;
                  c1 = (if digits < 0 then 1 else c);
                  e1 = (if digits < 0 then exp_min - 1 else e);
                  k = nat (exp_min - e1);
                  q = c1 div 10 ^ k;
                  r = c1 mod 10 ^ k;
                  up = (2 * r > 10 ^ k \<or> (2 * r = 10 ^ k \<and> odd q));
                  q1 = (if up then q + 1 else q);
                  carry = (up \<and> ndigits q1 > prec);
                  q2 = (if carry then q1 div 10 else q1);
                  e2 = (if carry then exp_min + 1 else exp_min)
              in if e2 > Etop then Inl (Overflow ''above Emax'') else Inr (Finite s q2 e2)
            else Inr x
    | QNaN s p \<Rightarrow> Inr (QNaN s (p mod 10 ^ prec))
    | _ \<Rightarrow> Inr x)"

text \<open>
  The loop of \<^verbatim>\<open>__truediv__\<close> that brings an exact quotient as close to the ideal
  exponent as its trailing zeros allow.
\<close>

function strip_zeros :: "nat \<Rightarrow> int \<Rightarrow> int \<Rightarrow> nat \<times> int" where
  "strip_zeros coeff e ideal =
     (if e < ideal \<and> coeff mod 10 = 0 then strip_zeros (coeff div 10) (e + 1) ideal
      else (coeff, e))"
  by pat_completeness auto
termination
  by (relation "measure (\<lambda>(c, e, i). nat (i - e))") auto

declare strip_zeros.simps [simp del]

definition truediv :: "decimal \<Rightarrow> decimal \<Rightarrow> exn + decimal" where
  "truediv x y = (case (x, y) of
      (SNaN _ _, _) \<Rightarrow> Inl (InvalidOperation ''sNaN'')
    | (_, SNaN _ _) \<Rightarrow> Inl (InvalidOperation ''sNaN'')
    | (QNaN s p, _) \<Rightarrow> decimal_fix (QNaN s p)
    | (_, QNaN s p) \<Rightarrow> decimal_fix (QNaN s p)
    | (Infinity _, Infinity _) \<Rightarrow> Inl (InvalidOperation ''(+-)INF/(+-)INF'')
    | (Infinity s1, Finite s2 _ _) \<Rightarrow> Inr (Infinity (s1 \<noteq> s2))
    | (Finite s1 _ _, Infinity s2) \<Rightarrow> Inr (Finite (s1 \<noteq> s2) 0 Etiny)
    | (Finite s1 c1 e1, Finite s2 c2 e2) \<Rightarrow>
        if c2 = 0 then
          (if c1 = 0 then Inl (InvalidOperation ''0 / 0'') else Inl (DivisionByZero ''x / 0''))
        else if c1 = 0 then decimal_fix (Finite (s1 \<noteq> s2) 0 (e1 - e2))
        else
          let shift = int (ndigits c2) - int (ndigits c1) + int prec + 1;
              e = e1 - e2 - shift;
              num = (if shift \<ge> 0 then c1 * 10 ^ nat shift else c1);
              den = (if shift \<ge> 0 then c2 else c2 * 10 ^ nat (- shift));
              coeff = num div den;
              remainder = num mod den
          in if remainder \<noteq> 0
             then decimal_fix (Finite (s1 \<noteq> s2) (if coeff mod 5 = 0 then coeff + 1 else coeff) e)
             else (case strip_zeros coeff e (e1 - e2) of
                     (coeff', e') \<Rightarrow> decimal_fix (Finite (s1 \<noteq> s2) coeff' e')))"

subsection \<open>Rendering\<close>

text \<open>
  \<^verbatim>\<open>Decimal.__str__\<close>: plain notation while the exponent is at most \<open>0\<close> and the
  number has more than \<open>-6\<close> digits left of the point, scientific notation with one
  digit before the point otherwise.
\<close>

definition sign_str :: "bool \<Rightarrow> string" where
  "sign_str s = (if s then ''-'' else [])"

text \<open>The format \<^verbatim>\<open>%+d\<close>.\<close>

definition signed_str :: "int \<Rightarrow> string" where
  "signed_str i = (if i < 0 then ''-'' @ str_nat (nat (- i)) else ''+'' @ str_nat (nat i))"

definition decimal_str :: "decimal \<Rightarrow> string" where
  "decimal_str x = (case x of
      Infinity s \<Rightarrow> sign_str s @ ''Infinity''
    | QNaN s p \<Rightarrow> sign_str s @ ''NaN'' @ (if p = 0 then [] else str_nat p)
    | SNaN s p \<Rightarrow> sign_str s @ ''sNaN'' @ (if p = 0 then [] else str_nat p)
    | Finite s c e \<Rightarrow>
        let ds = str_nat c;
            n = int (length ds);
            leftdigits = e + n;
            dotplace = (if e \<le> 0 \<and> leftdigits > - 6 then leftdigits else 1);
            intpart = (if dotplace \<le> 0 then ''0''
                       else if dotplace \<ge> n then ds @ replicate (nat (dotplace - n)) (CHR ''0'')
                       else take (nat dotplace) ds);
            fracpart = (if dotplace \<le> 0 then ''.'' @ replicate (nat (- dotplace)) (CHR ''0'') @ ds
                        else if dotplace \<ge> n then []
                        else ''.'' @ drop (nat dotplace) ds);
            ex = (if leftdigits = dotplace then [] else ''E'' @ signed_str (leftdigits - dotplace))
        in sign_str s @ intpart @ fracpart @ ex)"

text \<open>\<^verbatim>\<open>Decimal(n)\<close> for an integer \<open>n\<close> is exact.\<close>

definition decimal_of_int :: "int \<Rightarrow> decimal" where
  "decimal_of_int i = Finite (i < 0) (nat \<bar>i\<bar>) 0"

text \<open>The rational a finite decimal denotes.\<close>

definition decimal_value :: "decimal \<Rightarrow> rat option" where
  "decimal_value x = (case x of
      Finite s c e \<Rightarrow>
        Some ((if s then - 1 else 1) * of_nat c *
              (if e \<ge> 0 then 10 ^ nat e else 1 / 10 ^ nat (- e)))
    | _ \<Rightarrow> None)"

section \<open>The collaborators of the serializers\<close>

text \<open>
  What the serializers call and this repository fragment does not decide is a parameter:
  the token table \<^verbatim>\<open>TokenParams.get_token_decimals\<close> (of
  \<^verbatim>\<open>web_app.contract_tools.constants\<close>, which returns the decimals of a token address
  or raises), \<^verbatim>\<open>Decimal(v)\<close> for a value \<open>v\<close> that is not a string, and the
  validators of the scalar field types \<^verbatim>\<open>bool\<close>, \<^verbatim>\<open>int\<close> and
  \<^verbatim>\<open>datetime\<close>, which return the validated value or the message of a validation error.
\<close>

record 'dt library =
  get_token_decimals :: "string \<Rightarrow> exn + nat"
  Decimal_of_object :: "pyval \<Rightarrow> exn + decimal"
  bool_validator :: "pyval \<Rightarrow> string + bool"
  int_validator :: "pyval \<Rightarrow> string + int"
  datetime_validator :: "pyval \<Rightarrow> string + 'dt"

definition conversion_syntax :: exn where
  "conversion_syntax =
     InvalidOperation (''[<class '' @ [CHR 0x27] @ ''decimal.ConversionSyntax'' @ [CHR 0x27] @ ''>]'')"

definition Decimal :: "'dt library \<Rightarrow> pyval \<Rightarrow> exn + decimal" where
  "Decimal L v = (case v of
      PStr s \<Rightarrow> (case decimal_of_string s of Some x \<Rightarrow> Inr x | None \<Rightarrow> Inl conversion_syntax)
    | _ \<Rightarrow> Decimal_of_object L v)"

section \<open>Validation results\<close>

text \<open>
  A validation either returns a value, or fails with a \<^verbatim>\<open>ValidationError\<close> (a list of
  line errors, each a location and a message), or lets another exception through.  The
  fields of a model are validated in the order of their declaration; line errors
  accumulate over the fields, and an exception that is not a validation error ends the
  validation at once.
\<close>

datatype loc_item = Key string | Index nat

type_synonym line_error = "loc_item list \<times> string"

datatype failure = ValidationError "line_error list" | Raised exn

definition invalid :: "string \<Rightarrow> failure + 'a" where
  "invalid msg = Inl (ValidationError [([], msg)])"

definition at_loc :: "loc_item \<Rightarrow> failure + 'a \<Rightarrow> failure + 'a" where
  "at_loc l r = (case r of
      Inl (ValidationError es) \<Rightarrow> Inl (ValidationError (map (\<lambda>(p, m). (l # p, m)) es))
    | _ \<Rightarrow> r)"

definition both :: "failure + 'a \<Rightarrow> failure + 'b \<Rightarrow> failure + ('a \<times> 'b)" where
  "both a b = (case a of
      Inl (Raised e) \<Rightarrow> Inl (Raised e)
    | Inl (ValidationError es) \<Rightarrow>
        (case b of
           Inl (Raised e) \<Rightarrow> Inl (Raised e)
         | Inl (ValidationError es') \<Rightarrow> Inl (ValidationError (es @ es'))
         | Inr _ \<Rightarrow> Inl (ValidationError es))
    | Inr x \<Rightarrow> (case b of Inl f \<Rightarrow> Inl f | Inr y \<Rightarrow> Inr (x, y)))"

definition and_then :: "failure + 'a \<Rightarrow> ('a \<Rightarrow> failure + 'b) \<Rightarrow> failure + 'b" where
  "and_then r f = (case r of Inl e \<Rightarrow> Inl e | Inr x \<Rightarrow> f x)"

text \<open>
  A \<^verbatim>\<open>@field_validator(..., mode="before")\<close> function runs on the raw value of its field.
  A \<^verbatim>\<open>ValueError\<close> it raises becomes a line error \<^verbatim>\<open>Value error, <message>\<close>, a
  \<^verbatim>\<open>ValidationError\<close> it raises keeps its line errors, and every other exception
  passes through as it is.
\<close>

definition field_validator :: "failure + 'a \<Rightarrow> failure + 'a" where
  "field_validator r = (case r of
      Inl (Raised (ValueError m)) \<Rightarrow> invalid (''Value error, '' @ m)
    | _ \<Rightarrow> r)"

definition raised :: "exn + 'a \<Rightarrow> failure + 'a" where
  "raised r = (case r of Inl e \<Rightarrow> Inl (Raised e) | Inr x \<Rightarrow> Inr x)"

subsection \<open>Field lookup\<close>

text \<open>
  A field with an alias is read under the alias; with \<^verbatim>\<open>populate_by_name = True\<close> it
  is read under its name when the alias is absent.  A field without an alias is read
  under its name.  Keys that name no field are ignored.
\<close>

definition lookup_field :: "pydict \<Rightarrow> string \<Rightarrow> string option \<Rightarrow> bool \<Rightarrow> (string \<times> pyval) option" where
  "lookup_field d nm alias by_name = (case alias of
      None \<Rightarrow> map_option (Pair nm) (map_of d nm)
    | Some a \<Rightarrow>
        (case map_of d a of
           Some v \<Rightarrow> Some (a, v)
         | None \<Rightarrow> if by_name then map_option (Pair nm) (map_of d nm) else None))"

definition required_field ::
  "pydict \<Rightarrow> string \<Rightarrow> string option \<Rightarrow> bool \<Rightarrow> (pyval \<Rightarrow> failure + 'a) \<Rightarrow> failure + 'a" where
  "required_field d nm alias by_name validator = (case lookup_field d nm alias by_name of
      Some (k, v) \<Rightarrow> at_loc (Key k) (validator v)
    | None \<Rightarrow> at_loc (Key (case alias of Some a \<Rightarrow> a | None \<Rightarrow> nm)) (invalid ''Field required''))"

definition default_field ::
  "pydict \<Rightarrow> string \<Rightarrow> string option \<Rightarrow> bool \<Rightarrow> 'a \<Rightarrow> (pyval \<Rightarrow> failure + 'a) \<Rightarrow> failure + 'a" where
  "default_field d nm alias by_name dflt validator = (case lookup_field d nm alias by_name of
      Some (k, v) \<Rightarrow> at_loc (Key k) (validator v)
    | None \<Rightarrow> Inr dflt)"

subsection \<open>Validators of the field types\<close>

definition str_validator :: "pyval \<Rightarrow> failure + string" where
  "str_validator v = (case v of PStr s \<Rightarrow> Inr s | _ \<Rightarrow> invalid ''Input should be a valid string'')"

definition of_library :: "(pyval \<Rightarrow> string + 'a) \<Rightarrow> pyval \<Rightarrow> failure + 'a" where
  "of_library f v = (case f v of Inl msg \<Rightarrow> invalid msg | Inr x \<Rightarrow> Inr x)"

definition nullable :: "(pyval \<Rightarrow> failure + 'a) \<Rightarrow> pyval \<Rightarrow> failure + 'a option" where
  "nullable f v = (case v of PNone \<Rightarrow> Inr None | _ \<Rightarrow> map_sum id Some (f v))"

fun list_items :: "(pyval \<Rightarrow> failure + 'a) \<Rightarrow> nat \<Rightarrow> pyval list \<Rightarrow> failure + 'a list" where
  "list_items f i [] = Inr []"
| "list_items f i (x # xs) =
     map_sum id (\<lambda>(y, ys). y # ys) (both (at_loc (Index i) (f x)) (list_items f (Suc i) xs))"

definition list_validator :: "(pyval \<Rightarrow> failure + 'a) \<Rightarrow> pyval \<Rightarrow> failure + 'a list" where
  "list_validator f v = (case v of
      PList xs \<Rightarrow> list_items f 0 xs
    | _ \<Rightarrow> invalid ''Input should be a valid list'')"

fun dict_items :: "(pyval \<Rightarrow> failure + 'a) \<Rightarrow> pydict \<Rightarrow> failure + (string \<times> 'a) list" where
  "dict_items f [] = Inr []"
| "dict_items f ((k, x) # kxs) =
     map_sum id (\<lambda>(y, kys). (k, y) # kys) (both (at_loc (Key k) (f x)) (dict_items f kxs))"

definition dict_validator :: "(pyval \<Rightarrow> failure + 'a) \<Rightarrow> pyval \<Rightarrow> failure + (string \<times> 'a) list" where
  "dict_validator f v = (case v of
      PDict d \<Rightarrow> dict_items f d
    | _ \<Rightarrow> invalid ''Input should be a valid dictionary'')"

section \<open>The models of the dashboard response\<close>

record Data =
  collateral :: bool
  debt :: bool

record Position =
  data :: Data
  token_address :: "string option"
  total_balances :: "(string \<times> string) list"

record Product =
  name :: string
  health_ratio :: string
  positions :: "Position list"

record ZkLendPositionResponse =
  products :: "Product list"

record 'dt DashboardResponse =
  balances :: pydict
  multipliers :: "(string \<times> int option) list"
  start_dates :: "(string \<times> 'dt option) list"
  zklend_position :: ZkLendPositionResponse

subsection \<open>Data\<close>

definition Data_validate :: "'dt library \<Rightarrow> pyval \<Rightarrow> failure + Data" where
  "Data_validate L v = (case v of
      PDict d \<Rightarrow>
        map_sum id (\<lambda>(c, b). \<lparr>collateral = c, debt = b\<rparr>)
          (both (required_field d ''collateral'' None False (of_library (bool_validator L)))
                (required_field d ''debt'' None False (of_library (bool_validator L))))
    | _ \<Rightarrow> invalid ''Input should be a valid dictionary or instance of Data'')"

subsection \<open>Position and the conversion of its total balances\<close>

text \<open>
  The body of the \<^verbatim>\<open>try\<close> of \<^verbatim>\<open>convert_total_balances\<close> for one item, with its
  \<^verbatim>\<open>except ValueError\<close>: the decimals are fetched first, then the balance is
  converted and divided.  Only a \<^verbatim>\<open>ValueError\<close> is caught and raised again with the
  prefix.
\<close>

definition convert_balance :: "'dt library \<Rightarrow> string \<Rightarrow> pyval \<Rightarrow> exn + string" where
  "convert_balance L tok balance =
     (case (case get_token_decimals L tok of
              Inl e \<Rightarrow> Inl e
            | Inr decimals \<Rightarrow>
                (case Decimal L balance of
                   Inl e \<Rightarrow> Inl e
                 | Inr x \<Rightarrow>
                     (case truediv x (decimal_of_int (10 ^ decimals)) of
                        Inl e \<Rightarrow> Inl e
                      | Inr q \<Rightarrow> Inr (decimal_str q))))
      of Inl (ValueError m) \<Rightarrow> Inl (ValueError (''Error in balance conversion: '' @ m))
       | r \<Rightarrow> r)"

fun convert_balances_loop :: "'dt library \<Rightarrow> pydict \<Rightarrow> pydict \<Rightarrow> exn + pydict" where
  "convert_balances_loop L [] converted_balances = Inr converted_balances"
| "convert_balances_loop L ((tok, balance) # items) converted_balances =
     (case convert_balance L tok balance of
        Inl e \<Rightarrow> Inl e
      | Inr s \<Rightarrow> convert_balances_loop L items (AList.update tok (PStr s) converted_balances))"

definition convert_total_balances :: "'dt library \<Rightarrow> pyval \<Rightarrow> exn + pydict" where
  "convert_total_balances L v = (case v of
      PDict items \<Rightarrow> convert_balances_loop L items []
    | _ \<Rightarrow> Inl (no_attribute v ''items''))"

definition TotalBalances_validate :: "pyval \<Rightarrow> failure + (string \<times> string) list" where
  "TotalBalances_validate = dict_validator str_validator"

definition total_balances_validate :: "'dt library \<Rightarrow> pyval \<Rightarrow> failure + (string \<times> string) list" where
  "total_balances_validate L v =
     and_then (field_validator (raised (convert_total_balances L v)))
       (\<lambda>converted. TotalBalances_validate (PDict converted))"

definition Position_validate :: "'dt library \<Rightarrow> pyval \<Rightarrow> failure + Position" where
  "Position_validate L v = (case v of
      PDict d \<Rightarrow>
        map_sum id (\<lambda>(x, t, b). \<lparr>data = x, token_address = t, total_balances = b\<rparr>)
          (both (required_field d ''data'' None False (Data_validate L))
            (both (default_field d ''token_address'' (Some ''tokenAddress'') True None
                     (nullable str_validator))
                  (required_field d ''total_balances'' (Some ''totalBalances'') True
                     (total_balances_validate L))))
    | _ \<Rightarrow> invalid ''Input should be a valid dictionary or instance of Position'')"

subsection \<open>Product and the conversion of the products\<close>

text \<open>\<^verbatim>\<open>Product(**product)\<close>: the three fields are required and have no alias.\<close>

definition Product_validate :: "'dt library \<Rightarrow> pydict \<Rightarrow> failure + Product" where
  "Product_validate L d =
     map_sum id (\<lambda>(n, h, ps). \<lparr>name = n, health_ratio = h, positions = ps\<rparr>)
       (both (required_field d ''name'' None False str_validator)
         (both (required_field d ''health_ratio'' None False str_validator)
               (required_field d ''positions'' None False (list_validator (Position_validate L)))))"

text \<open>\<^verbatim>\<open>groups.get("1", {}).get("healthRatio")\<close>, for whatever \<^verbatim>\<open>groups\<close> is.\<close>

definition health_ratio_of_groups :: "pyval \<Rightarrow> exn + pyval" where
  "health_ratio_of_groups groups = (case groups of
      PDict g \<Rightarrow>
        (case (case map_of g ''1'' of Some g1 \<Rightarrow> g1 | None \<Rightarrow> PDict []) of
           PDict g1 \<Rightarrow> Inr (case map_of g1 ''healthRatio'' of Some h \<Rightarrow> h | None \<Rightarrow> PNone)
         | w \<Rightarrow> Inl (no_attribute w ''get''))
    | w \<Rightarrow> Inl (no_attribute w ''get''))"

text \<open>
  One turn of the loop of \<^verbatim>\<open>convert_products\<close>.  The product is the caller's own
  dictionary and is changed in place, so the turn returns the dictionary as it is left
  together with the outcome: \<^verbatim>\<open>pop\<close> removes \<^verbatim>\<open>groups\<close> before anything can fail,
  and \<^verbatim>\<open>health_ratio\<close> is stored before \<^verbatim>\<open>Product(**product)\<close> is called.
\<close>

definition convert_product :: "'dt library \<Rightarrow> pyval \<Rightarrow> pyval \<times> (failure + Product)" where
  "convert_product L p = (case p of
      PDict d \<Rightarrow>
        (let groups = (case map_of d ''groups'' of Some g \<Rightarrow> g | None \<Rightarrow> PNone);
             d1 = AList.delete ''groups'' d
         in case health_ratio_of_groups groups of
              Inl e \<Rightarrow> (PDict d1, Inl (Raised e))
            | Inr h \<Rightarrow>
                (let d2 = AList.update ''health_ratio'' h d1
                 in (PDict d2, Product_validate L d2)))
    | PList _ \<Rightarrow> (p, Inl (Raised (TypeError ''pop expected at most 1 argument, got 2'')))
    | _ \<Rightarrow> (p, Inl (Raised (no_attribute p ''pop''))))"

fun convert_products_loop ::
  "'dt library \<Rightarrow> pyval list \<Rightarrow> Product list \<Rightarrow> pyval list \<times> (failure + Product list)" where
  "convert_products_loop L [] converted_products = ([], Inr converted_products)"
| "convert_products_loop L (p # ps) converted_products =
     (case convert_product L p of
        (p', Inl f) \<Rightarrow> (p' # ps, Inl f)
      | (p', Inr x) \<Rightarrow>
          (case convert_products_loop L ps (converted_products @ [x]) of
             (ps', r) \<Rightarrow> (p' # ps', r)))"

text \<open>
  \<^verbatim>\<open>convert_products\<close> iterates over whatever the raw value of \<^verbatim>\<open>products\<close> is: the
  items of a list, the keys of a dictionary, the characters of a string; anything else is
  not iterable.  The first component is the raw value as the call leaves it.  The
  products of a list are distinct objects, as they are in a decoded payload: a dictionary
  listed twice would reach its second turn as its first turn left it.
\<close>

definition convert_products :: "'dt library \<Rightarrow> pyval \<Rightarrow> pyval \<times> (failure + Product list)" where
  "convert_products L v = (case v of
      PList ps \<Rightarrow> (case convert_products_loop L ps [] of (ps', r) \<Rightarrow> (PList ps', r))
    | PDict d \<Rightarrow> (v, snd (convert_products_loop L (map (\<lambda>(k, _). PStr k) d) []))
    | PStr s \<Rightarrow> (v, snd (convert_products_loop L (map (\<lambda>c. PStr [c]) s) []))
    | _ \<Rightarrow> (v, Inl (Raised (TypeError ([CHR 0x27] @ type_name v @ [CHR 0x27]
                                         @ '' object is not iterable'')))))"

subsection \<open>ZkLendPositionResponse and DashboardResponse\<close>

text \<open>
  \<^verbatim>\<open>products\<close> has the default factory \<^verbatim>\<open>list\<close>: when the key is absent the
  validator function does not run.  What it returns are \<^verbatim>\<open>Product\<close> instances, which
  the list validation of the field takes as they are.
\<close>

definition ZkLendPositionResponse_validate ::
  "'dt library \<Rightarrow> pyval \<Rightarrow> failure + ZkLendPositionResponse" where
  "ZkLendPositionResponse_validate L v = (case v of
      PDict d \<Rightarrow>
        map_sum id (\<lambda>ps. \<lparr>products = ps\<rparr>)
          (default_field d ''products'' None True []
             (\<lambda>raw. field_validator (snd (convert_products L raw))))
    | _ \<Rightarrow> invalid ''Input should be a valid dictionary or instance of ZkLendPositionResponse'')"

text \<open>
  \<^verbatim>\<open>DashboardResponse(**payload)\<close>: four required fields, declared without alias and in
  a model without \<^verbatim>\<open>populate_by_name\<close>, so each is read under its own name.
\<close>

definition DashboardResponse_validate ::
  "'dt library \<Rightarrow> pydict \<Rightarrow> failure + 'dt DashboardResponse" where
  "DashboardResponse_validate L payload =
     map_sum id
       (\<lambda>(b, m, s, z). \<lparr>balances = b, multipliers = m, start_dates = s, zklend_position = z\<rparr>)
       (both (required_field payload ''balances'' None False (dict_validator Inr))
         (both (required_field payload ''multipliers'' None False
                  (dict_validator (nullable (of_library (int_validator L)))))
           (both (required_field payload ''start_dates'' None False
                    (dict_validator (nullable (of_library (datetime_validator L)))))
                 (required_field payload ''zklend_position'' None False
                    (ZkLendPositionResponse_validate L)))))"

section \<open>A sample environment\<close>

text \<open>
  An instance of the collaborators, for evaluating the serializers on concrete payloads:
  a token table that knows the token \<^verbatim>\<open>0xTOK\<close> with 6 decimals and raises a
  \<^verbatim>\<open>ValueError\<close> for any other address, exact conversion of integers to decimals,
  and scalar validators that accept a value of the very type of the field (a boolean, an
  integer, a date and time written \<^verbatim>\<open>YYYY-MM-DDTHH:MM:SS\<close>).
\<close>

type_synonym datetime = "nat \<times> nat \<times> nat \<times> nat \<times> nat \<times> nat"

definition days_in_month :: "nat \<Rightarrow> nat \<Rightarrow> nat" where
  "days_in_month y m =
     (if m = 2 then (if (y mod 4 = 0 \<and> y mod 100 \<noteq> 0) \<or> y mod 400 = 0 then 29 else 28)
      else if m = 4 \<or> m = 6 \<or> m = 9 \<or> m = 11 then 30 else 31)"

definition datetime_of_iso :: "string \<Rightarrow> datetime option" where
  "datetime_of_iso s =
     (if length s = 19 \<and> s ! 4 = CHR ''-'' \<and> s ! 7 = CHR ''-'' \<and> s ! 10 = CHR ''T''
         \<and> s ! 13 = CHR '':'' \<and> s ! 16 = CHR '':''
         \<and> list_all is_digit (take 4 s @ take 2 (drop 5 s) @ take 2 (drop 8 s)
                                @ take 2 (drop 11 s) @ take 2 (drop 14 s) @ take 2 (drop 17 s))
      then
        (let y = nat_of_digits (take 4 s);
             m = nat_of_digits (take 2 (drop 5 s));
             d = nat_of_digits (take 2 (drop 8 s));
             hh = nat_of_digits (take 2 (drop 11 s));
             mm = nat_of_digits (take 2 (drop 14 s));
             ss = nat_of_digits (take 2 (drop 17 s))
         in if 1 \<le> y \<and> 1 \<le> m \<and> m \<le> 12 \<and> 1 \<le> d \<and> d \<le> days_in_month y m
               \<and> hh < 24 \<and> mm < 60 \<and> ss < 60
            then Some (y, m, d, hh, mm, ss) else None)
      else None)"

definition sample_library :: "datetime library" where
  "sample_library =
     \<lparr> get_token_decimals =
         (\<lambda>a. if a = ''0xTOK'' then Inr 6
               else Inl (ValueError (''Token with address '' @ a @ '' not found''))),
       Decimal_of_object =
         (\<lambda>v. case v of
                 PInt i \<Rightarrow> Inr (decimal_of_int i)
               | _ \<Rightarrow> Inl (TypeError (''conversion from '' @ type_name v
                                         @ '' to Decimal is not supported''))),
       bool_validator =
         (\<lambda>v. case v of PBool b \<Rightarrow> Inr b | _ \<Rightarrow> Inl ''Input should be a valid boolean''),
       int_validator =
         (\<lambda>v. case v of PInt i \<Rightarrow> Inr i | _ \<Rightarrow> Inl ''Input should be a valid integer''),
       datetime_validator =
         (\<lambda>v. case v of
                 PStr s \<Rightarrow> (case datetime_of_iso s of
                               Some t \<Rightarrow> Inr t
                             | None \<Rightarrow> Inl ''Input should be a valid datetime'')
               | _ \<Rightarrow> Inl ''Input should be a valid datetime'') \<rparr>"

text \<open>
  The payload of the end-to-end example, with the spelling of four of its keys left open:
  the two top-level keys for the start dates and the position, and the two keys of a
  position for the token address and the total balances.
\<close>

definition example_position :: "string \<Rightarrow> string \<Rightarrow> pyval" where
  "example_position token_address_key total_balances_key =
     PDict [(''data'', PDict [(''collateral'', PBool True), (''debt'', PBool False)]),
            (token_address_key, PStr ''0xTOK''),
            (total_balances_key, PDict [(''0xTOK'', PStr ''1000000'')])]"

definition example_product :: "string \<Rightarrow> string \<Rightarrow> pyval" where
  "example_product token_address_key total_balances_key =
     PDict [(''name'', PStr ''P1''),
            (''groups'', PDict [(''1'', PDict [(''healthRatio'', PStr ''2.0'')])]),
            (''positions'', PList [example_position token_address_key total_balances_key])]"

definition example_payload :: "string \<Rightarrow> string \<Rightarrow> string \<Rightarrow> string \<Rightarrow> pydict" where
  "example_payload start_dates_key zklend_position_key token_address_key total_balances_key =
     [(''balances'', PDict [(''ETH'', PFloat 5)]),
      (''multipliers'', PDict [(''ETH'', PInt 2)]),
      (start_dates_key, PDict [(''ETH'', PStr ''2024-01-01T00:00:00'')]),
      (zklend_position_key,
         PDict [(''products'', PList [example_product token_address_key total_balances_key])])]"

definition example_response :: "datetime DashboardResponse" where
  "example_response =
     \<lparr>balances = [(''ETH'', PFloat 5)],
      multipliers = [(''ETH'', Some 2)],
      start_dates = [(''ETH'', Some (2024, 1, 1, 0, 0, 0))],
      zklend_position =
        \<lparr>products =
           [\<lparr>name = ''P1'', health_ratio = ''2.0'',
             positions =
               [\<lparr>data = \<lparr>collateral = True, debt = False\<rparr>,
                 token_address = Some ''0xTOK'',
                 total_balances = [(''0xTOK'', ''1'')]\<rparr>]\<rparr>]\<rparr>\<rparr>"

section \<open>Notions of the specification\<close>

text \<open>
  What the claims speak of and the code does not name: integer literals, the outcome of a
  validation that succeeds, and the renaming of the keys of a position from the names of
  the fields to their wire names.
\<close>

text \<open>A character that \<^verbatim>\<open>Decimal\<close> neither strips nor drops.\<close>

definition plain :: "char \<Rightarrow> bool" where
  "plain c = (\<not> is_space c \<and> c \<noteq> CHR ''_'')"

text \<open>A raw integer-valued string: an optional sign and at least one digit; and its value.\<close>

definition int_literal :: "string \<Rightarrow> bool" where
  "int_literal s = (case split_sign s of (sg, ds) \<Rightarrow> ds \<noteq> [] \<and> list_all is_digit ds)"

definition int_of_literal :: "string \<Rightarrow> int" where
  "int_of_literal s =
     (case split_sign s of (sg, ds) \<Rightarrow> if sg then - int (nat_of_digits ds) else int (nat_of_digits ds))"

text \<open>The value of a validation that succeeds.\<close>

definition outcome :: "failure + 'a \<Rightarrow> 'a option" where
  "outcome r = (case r of Inl _ \<Rightarrow> None | Inr x \<Rightarrow> Some x)"

text \<open>
  The wire spelling of the keys of a position, in one dictionary and in every position of
  a payload; and the payloads whose positions use the names of the fields only.
\<close>

definition wire_key :: "string \<Rightarrow> string" where
  "wire_key k = (if k = ''token_address'' then ''tokenAddress''
                 else if k = ''total_balances'' then ''totalBalances'' else k)"

definition to_wire_names :: "pydict \<Rightarrow> pydict" where
  "to_wire_names d = map (\<lambda>(k, v). (wire_key k, v)) d"

definition no_wire_keys :: "pydict \<Rightarrow> bool" where
  "no_wire_keys d = list_all (\<lambda>(k, v). k \<noteq> ''tokenAddress'' \<and> k \<noteq> ''totalBalances'') d"

definition map_key :: "string \<Rightarrow> (pyval \<Rightarrow> pyval) \<Rightarrow> pydict \<Rightarrow> pydict" where
  "map_key k f d = map (\<lambda>(k', v). (k', if k' = k then f v else v)) d"

definition in_dict :: "(pydict \<Rightarrow> pydict) \<Rightarrow> pyval \<Rightarrow> pyval" where
  "in_dict f v = (case v of PDict d \<Rightarrow> PDict (f d) | _ \<Rightarrow> v)"

definition in_list :: "(pyval \<Rightarrow> pyval) \<Rightarrow> pyval \<Rightarrow> pyval" where
  "in_list f v = (case v of PList xs \<Rightarrow> PList (map f xs) | _ \<Rightarrow> v)"

definition product_to_wire :: "pyval \<Rightarrow> pyval" where
  "product_to_wire = in_dict (map_key ''positions'' (in_list (in_dict to_wire_names)))"

definition payload_to_wire :: "pydict \<Rightarrow> pydict" where
  "payload_to_wire =
     map_key ''zklend_position'' (in_dict (map_key ''products'' (in_list product_to_wire)))"

definition key_holds :: "string \<Rightarrow> (pyval \<Rightarrow> bool) \<Rightarrow> pydict \<Rightarrow> bool" where
  "key_holds k P d = list_all (\<lambda>(k', v). if k' = k then P v else True) d"

definition dict_holds :: "(pydict \<Rightarrow> bool) \<Rightarrow> pyval \<Rightarrow> bool" where
  "dict_holds P v = (case v of PDict d \<Rightarrow> P d | _ \<Rightarrow> True)"

definition list_holds :: "(pyval \<Rightarrow> bool) \<Rightarrow> pyval \<Rightarrow> bool" where
  "list_holds P v = (case v of PList xs \<Rightarrow> list_all P xs | _ \<Rightarrow> True)"

definition product_internal :: "pyval \<Rightarrow> bool" where
  "product_internal = dict_holds (key_holds ''positions'' (list_holds (dict_holds no_wire_keys)))"

definition payload_internal :: "pydict \<Rightarrow> bool" where
  "payload_internal =
     key_holds ''zklend_position'' (dict_holds (key_holds ''products'' (list_holds product_internal)))"

section \<open>Decimal arithmetic: digits, parsing and rendering\<close>

lemma digit_char_props: "k < 10 \<Longrightarrow> is_digit (digit_char k) \<and> digit_val (digit_char k) = k"
  by (simp add: is_digit_def digit_val_def digit_char_def)

lemma str_nat_nonempty: "str_nat n \<noteq> []"
  by (subst str_nat.simps) simp

lemma str_nat_digits: "list_all is_digit (str_nat n)"
proof (induction n rule: str_nat.induct)
  case (1 n)
  show ?case
    by (subst str_nat.simps) (use 1 in \<open>auto simp: digit_char_props\<close>)
qed

lemma foldl_digits:
  "foldl (\<lambda>a c. 10 * a + digit_val c) acc s
     = acc * 10 ^ length s + foldl (\<lambda>a c. 10 * a + digit_val c) 0 s"
proof (induction s arbitrary: acc)
  case Nil
  show ?case by simp
next
  case (Cons c s)
  let ?f = "\<lambda>a c. 10 * a + digit_val c"
  have a: "foldl ?f acc (c # s) = (10 * acc + digit_val c) * 10 ^ length s + foldl ?f 0 s"
    using Cons.IH [of "10 * acc + digit_val c"] by simp
  have b: "foldl ?f 0 (c # s) = digit_val c * 10 ^ length s + foldl ?f 0 s"
    using Cons.IH [of "digit_val c"] by simp
  show ?case unfolding a b by (simp add: algebra_simps)
qed

lemma nat_of_digits_append:
  "nat_of_digits (a @ b) = nat_of_digits a * 10 ^ length b + nat_of_digits b"
  unfolding nat_of_digits_def foldl_append by (rule foldl_digits)

lemma nat_of_digits_single: "nat_of_digits [c] = digit_val c"
  by (simp add: nat_of_digits_def)

lemma nat_of_digits_Nil: "nat_of_digits [] = 0"
  by (simp add: nat_of_digits_def)

lemma nat_of_digits_str_nat: "nat_of_digits (str_nat n) = n"
proof (induction n rule: str_nat.induct)
  case (1 n)
  show ?case
  proof (cases "n < 10")
    case True
    then show ?thesis
      by (subst str_nat.simps) (simp add: nat_of_digits_single digit_char_props)
  next
    case False
    then show ?thesis
      by (subst str_nat.simps)
         (simp add: nat_of_digits_append nat_of_digits_single digit_char_props 1)
  qed
qed

lemma nat_of_digits_zeros: "nat_of_digits (replicate k (CHR ''0'') @ s) = nat_of_digits s"
proof (induction k)
  case 0
  show ?case by simp
next
  case (Suc k)
  have "nat_of_digits (replicate (Suc k) (CHR ''0'') @ s)
          = nat_of_digits ([CHR ''0''] @ (replicate k (CHR ''0'') @ s))" by simp
  also have "\<dots> = nat_of_digits (replicate k (CHR ''0'') @ s)"
    unfolding nat_of_digits_append by (simp add: nat_of_digits_single digit_val_def)
  finally show ?case using Suc by simp
qed

lemma ndigits_pos: "0 < ndigits n"
  by (simp add: ndigits_def str_nat_nonempty)

lemma ndigits_le: "n < 10 ^ k \<Longrightarrow> 0 < k \<Longrightarrow> ndigits n \<le> k"
proof (induction n arbitrary: k rule: str_nat.induct)
  case (1 n)
  show ?case
  proof (cases "n < 10")
    case True
    then show ?thesis unfolding ndigits_def using 1(3) by (subst str_nat.simps) simp
  next
    case False
    obtain j where k: "k = Suc j" using 1(3) by (cases k) auto
    have "j \<noteq> 0" using False 1(2) k by (cases j) auto
    moreover have "n div 10 < 10 ^ j" using 1(2) k by (simp add: less_mult_imp_div_less mult.commute)
    ultimately have "ndigits (n div 10) \<le> j" using 1(1) [OF False, of j] by simp
    then show ?thesis unfolding ndigits_def using False k by (subst str_nat.simps) simp
  qed
qed

lemma ndigits_pow10: "ndigits (10 ^ d) = Suc d"
proof (induction d)
  case 0
  show ?case unfolding ndigits_def by (subst str_nat.simps) simp
next
  case (Suc d)
  have "\<not> (10::nat) ^ Suc d < 10" by simp
  then show ?case using Suc unfolding ndigits_def by (subst str_nat.simps) simp
qed

lemma strip_id: "s \<noteq> [] \<Longrightarrow> \<not> is_space (hd s) \<Longrightarrow> \<not> is_space (last s) \<Longrightarrow> strip s = s"
proof -
  assume a: "s \<noteq> []" "\<not> is_space (hd s)" "\<not> is_space (last s)"
  have 1: "dropWhile is_space s = s" using a by (cases s) auto
  have 2: "dropWhile is_space (rev s) = rev s" using a by (cases "rev s") (auto simp: hd_rev)
  show ?thesis unfolding strip_def 1 2 by simp
qed

lemma is_digit_not_space: "is_digit c \<Longrightarrow> \<not> is_space c \<and> c \<noteq> CHR ''_'' \<and> c \<noteq> CHR ''.'' \<and> c \<noteq> CHR ''-'' \<and> c \<noteq> CHR ''+'' \<and> lower c \<noteq> CHR ''e''"
  by (auto simp: is_digit_def is_space_def lower_def Let_def)

lemma strip_zeros_pow:
  "e + int k \<le> ideal \<Longrightarrow> strip_zeros (m * 10 ^ k) e ideal = strip_zeros m (e + int k) ideal"
proof (induction k arbitrary: e)
  case 0
  show ?case by simp
next
  case (Suc k)
  have eq: "e + 1 + int k = e + int (Suc k)" by simp
  have "strip_zeros (m * 10 ^ Suc k) e ideal = strip_zeros (m * 10 ^ k) (e + 1) ideal"
    using Suc.prems by (subst strip_zeros.simps) simp
  also have "\<dots> = strip_zeros m (e + 1 + int k) ideal"
    using Suc.prems by (intro Suc.IH) simp
  finally show ?case by (simp only: eq)
qed

lemma strip_zeros_value:
  "strip_zeros c e i = (c', e') \<Longrightarrow> e \<le> i \<Longrightarrow> e \<le> e' \<and> e' \<le> i \<and> c = c' * 10 ^ nat (e' - e)"
proof (induction c e i arbitrary: c' e' rule: strip_zeros.induct)
  case (1 coeff e ideal)
  show ?case
  proof (cases "e < ideal \<and> coeff mod 10 = 0")
    case True
    then have "strip_zeros coeff e ideal = strip_zeros (coeff div 10) (e + 1) ideal"
      by (subst strip_zeros.simps) simp
    then have r: "strip_zeros (coeff div 10) (e + 1) ideal = (c', e')"
      using 1(2) by simp
    have ih: "e + 1 \<le> e' \<and> e' \<le> ideal \<and> coeff div 10 = c' * 10 ^ nat (e' - (e + 1))"
      using 1(1) [OF True r] True by simp
    have "nat (e' - e) = Suc (nat (e' - (e + 1)))" using ih by linarith
    moreover have "coeff = coeff div 10 * 10" using True by auto
    ultimately show ?thesis using ih by simp
  next
    case False
    then have "strip_zeros coeff e ideal = (coeff, e)" by (subst strip_zeros.simps) auto
    then have "c' = coeff" "e' = e" using 1(2) by simp_all
    then show ?thesis using 1(3) by simp
  qed
qed

lemma digits_plain: "list_all is_digit ds \<Longrightarrow> list_all plain ds"
  by (induction ds) (auto simp: plain_def is_digit_not_space)

lemma strip_plain: "list_all plain s \<Longrightarrow> strip s = s"
proof (cases s)
  case Nil
  then show ?thesis by (simp add: strip_def)
next
  case (Cons c r)
  assume a: "list_all plain s"
  have "\<not> is_space (hd s)" using a Cons by (simp add: plain_def)
  moreover have "last s \<in> set s" using Cons by simp
  then have "\<not> is_space (last s)" using a by (auto simp: list_all_iff plain_def)
  ultimately show ?thesis using Cons by (intro strip_id) auto
qed

lemma filter_plain: "list_all plain s \<Longrightarrow> filter (\<lambda>c. c \<noteq> CHR ''_'') s = s"
  by (induction s) (auto simp: plain_def)

lemma takeWhile_stop:
  "r = [] \<or> \<not> P (hd r) \<Longrightarrow> takeWhile P r = [] \<and> dropWhile P r = r"
  by (cases r) auto

lemma takeWhile_digits:
  "list_all is_digit ds \<Longrightarrow> r = [] \<or> \<not> is_digit (hd r)
     \<Longrightarrow> takeWhile is_digit (ds @ r) = ds \<and> dropWhile is_digit (ds @ r) = r"
  by (induction ds) (simp_all add: takeWhile_stop)

lemma lower_E: "lower (CHR ''E'') = CHR ''e''"
proof -
  have "(of_char (char_of (101::nat)) :: nat) = of_char (CHR ''e'')" by simp
  then have "char_of (101::nat) = CHR ''e''" by (simp only: of_char_eq_iff)
  then show ?thesis by (simp add: lower_def)
qed

lemma str_nat_hd: "hd (str_nat k) \<noteq> CHR ''-'' \<and> hd (str_nat k) \<noteq> CHR ''+''"
proof -
  obtain c r where cr: "str_nat k = c # r" using str_nat_nonempty [of k] by (cases "str_nat k") auto
  have "is_digit c" using str_nat_digits [of k] cr by simp
  then show ?thesis using cr is_digit_not_space by auto
qed

lemma split_sign_digits: "split_sign (str_nat k) = (False, str_nat k)"
  using str_nat_hd [of k] str_nat_nonempty [of k]
  by (cases "str_nat k") (auto simp: split_sign_def)

lemma signed_str_parse: "parse_exponent (''E'' @ signed_str x) = Some x"
  by (simp add: parse_exponent_def signed_str_def lower_E split_sign_def
        str_nat_nonempty str_nat_digits nat_of_digits_str_nat)

lemma signed_str_plain: "list_all plain (''E'' @ signed_str x)"
  using digits_plain [OF str_nat_digits]
  by (auto simp: signed_str_def plain_def is_space_def)

lemma parse_number_shape:
  assumes "list_all is_digit ip" "ip \<noteq> []" "list_all is_digit fp"
    and "ex = [] \<or> hd ex = CHR ''E''"
    and "parse_exponent ex = Some x"
  shows "parse_number sg (ip @ (if fp = [] then [] else CHR ''.'' # fp) @ ex)
           = Some (Finite sg (nat_of_digits (ip @ fp)) (x - int (length fp)))"
proof (cases "fp = []")
  case True
  have nd: "ex = [] \<or> \<not> is_digit (hd ex)" using assms(4) by (auto simp: is_digit_def)
  have nf: "\<not> (ex \<noteq> [] \<and> hd ex = CHR ''.'')" using assms(4) by auto
  show ?thesis
    using takeWhile_digits [OF assms(1) nd] nf assms(2,5) True
    by (auto simp: parse_number_def Let_def)
next
  case False
  have nd: "CHR ''.'' # fp @ ex = [] \<or> \<not> is_digit (hd (CHR ''.'' # fp @ ex))"
    by (simp add: is_digit_def)
  have nd2: "ex = [] \<or> \<not> is_digit (hd ex)" using assms(4) by (auto simp: is_digit_def)
  show ?thesis
    using takeWhile_digits [OF assms(1) nd] takeWhile_digits [OF assms(3) nd2] assms(2,5) False
    by (simp add: parse_number_def Let_def)
qed

lemma decimal_of_string_shape:
  assumes "list_all is_digit ip" "ip \<noteq> []" "list_all is_digit fp"
    and "ex = [] \<or> hd ex = CHR ''E''"
    and "parse_exponent ex = Some x"
    and "list_all plain ex"
  shows "decimal_of_string (sign_str sg @ ip @ (if fp = [] then [] else CHR ''.'' # fp) @ ex)
           = Some (Finite sg (nat_of_digits (ip @ fp)) (x - int (length fp)))"
proof -
  let ?body = "ip @ (if fp = [] then [] else CHR ''.'' # fp) @ ex"
  have pl: "list_all plain (sign_str sg @ ?body)"
    using digits_plain [OF assms(1)] digits_plain [OF assms(3)] assms(6)
    by (auto simp: sign_str_def plain_def is_space_def)
  obtain c r where ip: "ip = c # r" using assms(2) by (cases ip) auto
  have "is_digit c" using assms(1) ip by simp
  then have "c \<noteq> CHR ''-''" "c \<noteq> CHR ''+''" using is_digit_not_space by auto
  then have sp: "split_sign (sign_str sg @ ?body) = (sg, ?body)"
    using ip by (simp add: split_sign_def sign_str_def)
  show ?thesis
    unfolding decimal_of_string_def strip_plain [OF pl] filter_plain [OF pl] sp
    using parse_number_shape [OF assms(1-5), of sg] by simp
qed

lemma decimal_roundtrip: "decimal_of_string (decimal_str (Finite s c e)) = Some (Finite s c e)"
proof -
  define ds where "ds = str_nat c"
  define n where "n = int (length ds)"
  have dig: "list_all is_digit ds" and ne: "ds \<noteq> []" and val: "nat_of_digits ds = c"
    unfolding ds_def by (simp_all add: str_nat_digits str_nat_nonempty nat_of_digits_str_nat)
  have npos: "0 < n" using ne by (simp add: n_def)
  have shape: "decimal_of_string (decimal_str (Finite s c e))
                 = Some (Finite s (nat_of_digits (ip @ fp)) (x - int (length fp)))"
    if "decimal_str (Finite s c e) = sign_str s @ ip @ (if fp = [] then [] else CHR ''.'' # fp) @ ex"
      and "list_all is_digit ip" "ip \<noteq> []" "list_all is_digit fp"
      and "ex = [] \<or> hd ex = CHR ''E''" "parse_exponent ex = Some x" "list_all plain ex"
    for ip fp ex x
    unfolding that(1) by (rule decimal_of_string_shape [OF that(2-7)])
  have p0: "parse_exponent [] = Some 0" by (simp add: parse_exponent_def)
  consider (a) "e \<le> 0" "e + n > - 6" "e + n \<le> 0"
    | (b) "e = 0"
    | (c) "e < 0" "0 < e + n"
    | (d) "\<not> (e \<le> 0 \<and> e + n > - 6)" "n = 1"
    | (f) "\<not> (e \<le> 0 \<and> e + n > - 6)" "1 < n"
    using npos by linarith
  then show ?thesis
  proof cases
    case a
    define z where "z = replicate (nat (- (e + n))) (CHR ''0'')"
    have str: "decimal_str (Finite s c e)
                 = sign_str s @ ''0'' @ (if z @ ds = [] then [] else CHR ''.'' # (z @ ds)) @ []"
      using a ne by (simp add: decimal_str_def Let_def ds_def [symmetric] n_def [symmetric] z_def)
    have 1: "list_all is_digit ''0''" by (simp add: is_digit_def)
    have 2: "list_all is_digit (z @ ds)" using dig by (auto simp: is_digit_def list_all_iff z_def)
    have "decimal_of_string (decimal_str (Finite s c e))
            = Some (Finite s (nat_of_digits (''0'' @ (z @ ds))) (0 - int (length (z @ ds))))"
      by (rule shape [where ex = "[]", OF str 1 _ 2 _ p0]) simp_all
    moreover have "nat_of_digits (''0'' @ (z @ ds)) = c"
      using nat_of_digits_zeros [of "Suc (nat (- (e + n)))" ds] val by (simp add: z_def)
    moreover have "0 - int (length (z @ ds)) = e" using a by (simp add: n_def z_def)
    ultimately show ?thesis by simp
  next
    case b
    have str: "decimal_str (Finite s c e)
                 = sign_str s @ ds @ (if ([]::string) = [] then [] else CHR ''.'' # []) @ []"
      using b npos by (simp add: decimal_str_def Let_def ds_def [symmetric] n_def [symmetric])
    have "decimal_of_string (decimal_str (Finite s c e))
            = Some (Finite s (nat_of_digits (ds @ [])) (0 - int (length ([]::string))))"
      by (rule shape [where ex = "[]", OF str dig ne _ _ p0]) simp_all
    then show ?thesis using val b by simp
  next
    case c
    define k where "k = nat (e + n)"
    have k: "k < length ds" "0 < k" using c by (simp_all add: n_def k_def)
    have 2: "take k ds \<noteq> []" "drop k ds \<noteq> []" using k ne by auto
    have str: "decimal_str (Finite s c e)
                 = sign_str s @ take k ds @ (if drop k ds = [] then [] else CHR ''.'' # drop k ds) @ []"
      using c k by (simp add: decimal_str_def Let_def ds_def [symmetric] n_def [symmetric] k_def)
    have 1: "list_all is_digit (take k ds)" "list_all is_digit (drop k ds)"
      using dig by (auto simp: list_all_iff dest: in_set_takeD in_set_dropD)
    have "decimal_of_string (decimal_str (Finite s c e))
            = Some (Finite s (nat_of_digits (take k ds @ drop k ds)) (0 - int (length (drop k ds))))"
      by (rule shape [where ex = "[]", OF str 1(1) 2(1) 1(2) _ p0]) simp_all
    moreover have "0 - int (length (drop k ds)) = e" using c k by (simp add: n_def k_def)
    ultimately show ?thesis using val by simp
  next
    case d
    define x where "x = e + n - 1"
    have len: "length ds = 1" using d by (simp add: n_def)
    have x0: "x \<noteq> 0" using d by (auto simp: x_def)
    have str: "decimal_str (Finite s c e)
                 = sign_str s @ ds @ (if ([]::string) = [] then [] else CHR ''.'' # [])
                     @ (''E'' @ signed_str x)"
      using d x0 len by (simp add: decimal_str_def Let_def ds_def [symmetric] n_def [symmetric] x_def)
    have "decimal_of_string (decimal_str (Finite s c e))
            = Some (Finite s (nat_of_digits (ds @ [])) (x - int (length ([]::string))))"
      by (rule shape [OF str dig ne _ _ signed_str_parse signed_str_plain]) simp_all
    then show ?thesis using val d by (simp add: x_def)
  next
    case f
    define x where "x = e + n - 1"
    have len: "1 < length ds" using f by (simp add: n_def)
    have x0: "x \<noteq> 0" using f by (auto simp: x_def)
    have 2: "take 1 ds \<noteq> []" "drop 1 ds \<noteq> []" using len by auto
    consider "0 < e" | "e + n \<le> - 6" using f(1) by linarith
    then have str: "decimal_str (Finite s c e)
                 = sign_str s @ take 1 ds @ (if drop 1 ds = [] then [] else CHR ''.'' # drop 1 ds)
                     @ (''E'' @ signed_str x)"
    proof cases
      case 1
      then show ?thesis
        using f(2) x0 len
        by (simp add: decimal_str_def Let_def ds_def [symmetric] n_def [symmetric] x_def)
    next
      case 2
      then show ?thesis
        using f(2) x0 len
        by (simp add: decimal_str_def Let_def ds_def [symmetric] n_def [symmetric] x_def)
    qed
    have 1: "list_all is_digit (take 1 ds)" "list_all is_digit (drop 1 ds)"
      using dig by (auto simp: list_all_iff dest: in_set_takeD in_set_dropD)
    have "decimal_of_string (decimal_str (Finite s c e))
            = Some (Finite s (nat_of_digits (take 1 ds @ drop 1 ds)) (x - int (length (drop 1 ds))))"
      by (rule shape [OF str 1(1) 2(1) 1(2) _ signed_str_parse signed_str_plain]) simp_all
    moreover have "x - int (length (drop 1 ds)) = e" using len by (simp add: n_def x_def)
    ultimately show ?thesis using val by simp
  qed
qed

section \<open>Balance normalization\<close>

lemma decimal_of_int_literal:
  assumes "int_literal s" and sp: "split_sign s = (sg, ds)"
  shows "decimal_of_string s = Some (Finite sg (nat_of_digits ds) 0)"
proof -
  have d: "ds \<noteq> []" "list_all is_digit ds" using assms by (simp_all add: int_literal_def)
  have "s = ds \<or> (\<exists>c. s = c # ds \<and> (c = CHR ''-'' \<or> c = CHR ''+''))"
    using sp by (auto simp: split_sign_def split: list.splits if_splits)
  then have pl: "list_all plain s"
    using digits_plain [OF d(2)] by (auto simp: plain_def is_space_def)
  have "parse_number sg ds = Some (Finite sg (nat_of_digits ds) 0)"
    using parse_number_shape [where ip = ds and fp = "[]" and ex = "[]" and x = 0 and sg = sg] d
    by (simp add: parse_exponent_def)
  then show ?thesis
    unfolding decimal_of_string_def strip_plain [OF pl] filter_plain [OF pl] sp by simp
qed

lemma truediv_Finite:
  assumes "c1 \<noteq> 0" "c2 \<noteq> 0"
    and "shift = int (ndigits c2) - int (ndigits c1) + int prec + 1"
    and "0 \<le> shift"
    and "c1 * 10 ^ nat shift mod c2 = 0"
    and "strip_zeros (c1 * 10 ^ nat shift div c2) (e1 - e2 - shift) (e1 - e2) = (c, e)"
  shows "truediv (Finite s1 c1 e1) (Finite s2 c2 e2) = decimal_fix (Finite (s1 \<noteq> s2) c e)"
  using assms by (simp add: truediv_def Let_def)

lemma decimal_fix_id:
  assumes "c \<noteq> 0" "ndigits c \<le> 28" "Etiny \<le> e" "e \<le> 0"
  shows "decimal_fix (Finite sg c e) = Inr (Finite sg c e)"
  using assms by (simp add: decimal_fix_def Let_def prec_def Etop_def Etiny_def Emax_def Emin_def)

lemma truediv_pow10:
  assumes "n < 10 ^ 28" "d \<le> 1000026"
  shows "\<exists>c e. truediv (Finite sg n 0) (Finite False (10 ^ d) 0) = Inr (Finite sg c e)
            \<and> - int d \<le> e \<and> e \<le> 0 \<and> n = c * 10 ^ nat (e + int d)"
proof (cases "n = 0")
  case True
  have "truediv (Finite sg n 0) (Finite False (10 ^ d) 0) = Inr (Finite sg 0 0)"
    using True by (simp add: truediv_def decimal_fix_def Etiny_def Emin_def Emax_def prec_def)
  then show ?thesis using True by auto
next
  case False
  define len where "len = ndigits n"
  have len: "0 < len" "len \<le> 28"
    using ndigits_pos [of n] ndigits_le [OF assms(1)] by (simp_all add: len_def)
  define shift where "shift = int d + 30 - int len"
  define k where "k = 30 - len"
  have sh: "shift = int (ndigits (10 ^ d)) - int (ndigits n) + int prec + 1"
    by (simp add: shift_def ndigits_pow10 prec_def len_def)
  have sh0: "0 \<le> shift" using len by (simp add: shift_def)
  have ns: "nat shift = k + d" using len by (simp add: shift_def k_def)
  have num: "n * 10 ^ nat shift = (n * 10 ^ k) * 10 ^ d" by (simp add: ns power_add)
  have q: "n * 10 ^ nat shift div 10 ^ d = n * 10 ^ k" "n * 10 ^ nat shift mod 10 ^ d = 0"
    unfolding num by simp_all
  obtain c e where sz: "strip_zeros n (- int d) 0 = (c, e)" by (cases "strip_zeros n (- int d) 0")
  have eq: "- shift + int k = - int d" using len by (simp add: shift_def k_def)
  have "strip_zeros (n * 10 ^ k) (- shift) 0 = strip_zeros n (- shift + int k) 0"
    by (rule strip_zeros_pow) (use len in \<open>simp add: shift_def k_def\<close>)
  then have "strip_zeros (n * 10 ^ k) (- shift) 0 = (c, e)"
    by (simp only: eq sz)
  then have sz': "strip_zeros (n * 10 ^ nat shift div 10 ^ d) (0 - 0 - shift) (0 - 0) = (c, e)"
    by (simp add: q)
  have v: "- int d \<le> e" "e \<le> 0" "n = c * 10 ^ nat (e + int d)"
    using strip_zeros_value [OF sz] by simp_all
  have c0: "c \<noteq> 0" using v(3) False by auto
  have "c * 1 \<le> c * 10 ^ nat (e + int d)" by (rule mult_le_mono2) simp
  then have "c \<le> n" using v(3) by simp
  then have "c < 10 ^ 28" using assms(1) by (rule le_less_trans)
  then have nd: "ndigits c \<le> 28" by (rule ndigits_le) simp
  have et: "Etiny \<le> e" using v(1) assms(2) by (simp add: Etiny_def Emin_def prec_def)
  have "truediv (Finite sg n 0) (Finite False (10 ^ d) 0) = decimal_fix (Finite (sg \<noteq> False) c e)"
    by (rule truediv_Finite [OF False _ sh sh0 q(2) sz']) simp
  then have "truediv (Finite sg n 0) (Finite False (10 ^ d) 0) = Inr (Finite sg c e)"
    using decimal_fix_id [OF c0 nd et v(2)] by simp
  then show ?thesis using v by blast
qed

lemma decimal_value_scaled:
  assumes "- int d \<le> e" "e \<le> 0" "n = c * 10 ^ nat (e + int d)"
  shows "decimal_value (Finite sg c e) = Some ((if sg then - 1 else 1) * of_nat n / 10 ^ d)"
proof -
  define a where "a = nat (e + int d)"
  define b where "b = nat (- e)"
  have d: "d = a + b" using assms(1,2) by (simp add: a_def b_def)
  have n: "(of_nat n :: rat) = of_nat c * 10 ^ a" using assms(3) by (simp add: a_def)
  have e: "(if e \<ge> 0 then (10::rat) ^ nat e else 1 / 10 ^ nat (- e)) = 1 / 10 ^ b"
    using assms(2) by (cases "e = 0") (auto simp: b_def)
  show ?thesis
    unfolding decimal_value_def decimal.case e n d by (simp add: power_add)
qed

lemma convert_balance_exact:
  assumes "int_literal s" "\<bar>int_of_literal s\<bar> < 10 ^ 28"
    and "get_token_decimals L k = Inr dk" "dk \<le> 1000026"
  shows "\<exists>r q. convert_balance L k (PStr s) = Inr r \<and> decimal_of_string r = Some q
            \<and> decimal_value q = Some (of_int (int_of_literal s) / 10 ^ dk)"
proof -
  obtain sg ds where sp: "split_sign s = (sg, ds)" by (cases "split_sign s")
  define n where "n = nat_of_digits ds"
  have lit: "int_of_literal s = (if sg then - int n else int n)"
    by (simp add: int_of_literal_def sp n_def)
  have "int n < 10 ^ 28" using assms(2) lit by (simp split: if_splits)
  then have n: "n < 10 ^ 28" by simp
  have D: "Decimal L (PStr s) = Inr (Finite sg n 0)"
    using decimal_of_int_literal [OF assms(1) sp] by (simp add: Decimal_def n_def)
  obtain c e where t: "truediv (Finite sg n 0) (Finite False (10 ^ dk) 0) = Inr (Finite sg c e)"
      "- int dk \<le> e" "e \<le> 0" "n = c * 10 ^ nat (e + int dk)"
    using truediv_pow10 [OF n assms(4)] by blast
  have doi: "decimal_of_int (10 ^ dk) = Finite False (10 ^ dk) 0"
    by (simp add: decimal_of_int_def nat_power_eq)
  have cb: "convert_balance L k (PStr s) = Inr (decimal_str (Finite sg c e))"
    by (simp add: convert_balance_def assms(3) D doi t(1))
  have "(of_int (int_of_literal s) :: rat) = (if sg then - 1 else 1) * of_nat n"
    by (simp add: lit)
  then have val: "decimal_value (Finite sg c e) = Some (of_int (int_of_literal s) / 10 ^ dk)"
    using decimal_value_scaled [OF t(2,3,4), of sg] by simp
  show ?thesis using cb decimal_roundtrip [of sg c e] val by blast
qed

lemma convert_balances_loop_all:
  assumes "distinct (map fst acc @ map fst items)"
    and "\<And>k v. (k, v) \<in> set items \<Longrightarrow> \<exists>r. convert_balance L k v = Inr r"
  shows "\<exists>out. convert_balances_loop L items acc = Inr out
           \<and> map fst out = map fst acc @ map fst items
           \<and> (\<forall>k v. (k, v) \<in> set items \<longrightarrow>
                  (\<exists>r. convert_balance L k v = Inr r \<and> map_of out k = Some (PStr r)))
           \<and> (\<forall>k. k \<notin> fst ` set items \<longrightarrow> map_of out k = map_of acc k)"
  using assms
proof (induction items arbitrary: acc)
  case Nil
  then show ?case by simp
next
  case (Cons item items)
  obtain k v where item: "item = (k, v)" by (cases item)
  obtain r where r: "convert_balance L k v = Inr r" using Cons.prems(2) [of k v] item by auto
  let ?acc = "AList.update k (PStr r) acc"
  have knew: "k \<notin> set (map fst acc)" "k \<notin> fst ` set items"
    using Cons.prems(1) item by auto
  have keys: "map fst ?acc = map fst acc @ [k]" using knew by (simp add: update_keys)
  have dist: "distinct (map fst ?acc @ map fst items)" using Cons.prems(1) item keys by auto
  obtain out where out: "convert_balances_loop L items ?acc = Inr out"
      "map fst out = map fst ?acc @ map fst items"
      "\<forall>k v. (k, v) \<in> set items \<longrightarrow>
          (\<exists>r. convert_balance L k v = Inr r \<and> map_of out k = Some (PStr r))"
      "\<forall>k. k \<notin> fst ` set items \<longrightarrow> map_of out k = map_of ?acc k"
    using Cons.IH [OF dist] Cons.prems(2) by (metis list.set_intros(2))
  have 1: "convert_balances_loop L (item # items) acc = Inr out"
    by (simp add: item r out(1))
  have 2: "map fst out = map fst acc @ map fst (item # items)"
    by (simp add: out(2) keys item)
  have 3: "map_of out k = Some (PStr r)"
    using out(4) knew(2) by (simp add: update_conv')
  have 4: "\<forall>k'. k' \<notin> fst ` set (item # items) \<longrightarrow> map_of out k' = map_of acc k'"
    using out(4) item by (auto simp: update_conv')
  have 5: "\<forall>k' v'. (k', v') \<in> set (item # items) \<longrightarrow>
          (\<exists>r. convert_balance L k' v' = Inr r \<and> map_of out k' = Some (PStr r))"
    using out(3) 3 r item by auto
  show ?case using 1 2 4 5 by blast
qed

text \<open>
  Claim C3, amended.  For a dictionary with distinct keys whose values are integer
  literals (an optional sign and digits) of absolute value below \<open>10\<^sup>2\<^sup>8\<close>, and a
  decimals lookup that returns at most \<open>1000026\<close> for each key, the normalization
  succeeds, keeps the keys in their order, and the string stored at each key parses
  again, as a decimal, to exactly \<open>rawValue / 10 ^ decimals\<close>.  The bounds are those of
  the decimal context: 28 significant digits, and \<open>Etiny = -1000026\<close>.
\<close>

theorem convert_total_balances_exact:
  assumes "distinct (map fst bs)"
    and "\<forall>(k, v) \<in> set bs. \<exists>s dk. v = PStr s \<and> int_literal s \<and> \<bar>int_of_literal s\<bar> < 10 ^ 28
            \<and> get_token_decimals L k = Inr dk \<and> dk \<le> 1000026"
  shows "\<exists>out. convert_total_balances L (PDict bs) = Inr out \<and> map fst out = map fst bs
           \<and> (\<forall>(k, v) \<in> set bs. \<exists>s dk r q. v = PStr s \<and> get_token_decimals L k = Inr dk
                  \<and> map_of out k = Some (PStr r) \<and> decimal_of_string r = Some q
                  \<and> decimal_value q = Some (of_int (int_of_literal s) / 10 ^ dk))"
proof -
  have conv: "\<exists>r. convert_balance L k v = Inr r" if "(k, v) \<in> set bs" for k v
    using assms(2) that convert_balance_exact [of _ L k] by fastforce
  obtain out where out: "convert_balances_loop L bs [] = Inr out" "map fst out = map fst bs"
      "\<forall>k v. (k, v) \<in> set bs \<longrightarrow> (\<exists>r. convert_balance L k v = Inr r \<and> map_of out k = Some (PStr r))"
    using convert_balances_loop_all [of "[]" bs L] assms(1) conv by auto
  have "\<exists>s dk r q. v = PStr s \<and> get_token_decimals L k = Inr dk
                  \<and> map_of out k = Some (PStr r) \<and> decimal_of_string r = Some q
                  \<and> decimal_value q = Some (of_int (int_of_literal s) / 10 ^ dk)"
    if kv: "(k, v) \<in> set bs" for k v
  proof -
    obtain s dk where h: "v = PStr s" "int_literal s" "\<bar>int_of_literal s\<bar> < 10 ^ 28"
        "get_token_decimals L k = Inr dk" "dk \<le> 1000026"
      using assms(2) kv by fastforce
    obtain r where r: "convert_balance L k v = Inr r" "map_of out k = Some (PStr r)"
      using out(3) kv by blast
    obtain r' q where q: "convert_balance L k (PStr s) = Inr r'" "decimal_of_string r' = Some q"
        "decimal_value q = Some (of_int (int_of_literal s) / 10 ^ dk)"
      using convert_balance_exact [OF h(2,3,4,5)] by blast
    have "r' = r" using r(1) q(1) h(1) by simp
    then show ?thesis using h r q by blast
  qed
  then show ?thesis using out(1,2) by (auto simp: convert_total_balances_def)
qed

text \<open>
  The amended claim C3 at the balances of the end-to-end example.
\<close>

theorem convert_total_balances_exact_witness:
  "\<exists>out. convert_total_balances sample_library (PDict [(''0xTOK'', PStr ''1000000'')]) = Inr out
      \<and> map fst out = [''0xTOK'']
      \<and> (\<exists>r q. map_of out ''0xTOK'' = Some (PStr r) \<and> decimal_of_string r = Some q
             \<and> decimal_value q = Some (1000000 / 10 ^ 6))"
proof -
  have 1: "distinct (map fst [(''0xTOK'', PStr ''1000000'')])" by simp
  have lit: "int_literal ''1000000''" "int_of_literal ''1000000'' = 1000000"
    by (simp_all add: int_literal_def int_of_literal_def split_sign_def is_digit_def
          nat_of_digits_def digit_val_def)
  have 2: "\<forall>(k, v) \<in> set [(''0xTOK'', PStr ''1000000'')].
            \<exists>s dk. v = PStr s \<and> int_literal s \<and> \<bar>int_of_literal s\<bar> < 10 ^ 28
              \<and> get_token_decimals sample_library k = Inr dk \<and> dk \<le> 1000026"
    by (simp add: lit sample_library_def)
  show ?thesis
    using convert_total_balances_exact [OF 1 2] by (simp add: lit sample_library_def)
qed

section \<open>Validation of the models\<close>

lemma outcome_Some: "outcome r = Some x \<longleftrightarrow> r = Inr x"
  by (cases r) (auto simp: outcome_def)

lemma outcome_None: "outcome r = None \<longleftrightarrow> isl r"
  by (cases r) (auto simp: outcome_def)

lemma outcome_Inl: "outcome (Inl f) = None"
  by (simp add: outcome_def)

lemma outcome_Inr: "outcome (Inr x) = Some x"
  by (simp add: outcome_def)

lemma outcome_at_loc: "outcome (at_loc l r) = outcome r"
  by (auto simp: outcome_def at_loc_def split: sum.splits failure.splits)

lemma outcome_both:
  "outcome (both a b) = (case outcome a of None \<Rightarrow> None | Some x \<Rightarrow> map_option (Pair x) (outcome b))"
  by (auto simp: outcome_def both_def split: sum.splits failure.splits)

lemma outcome_map_sum: "outcome (map_sum id g r) = map_option g (outcome r)"
  by (cases r) (auto simp: outcome_def)

lemma outcome_field_validator: "outcome (field_validator r) = outcome r"
  by (auto simp: outcome_def field_validator_def invalid_def split: sum.splits failure.splits exn.splits)

lemma outcome_and_then:
  "outcome (and_then r f) = (case outcome r of None \<Rightarrow> None | Some x \<Rightarrow> outcome (f x))"
  by (cases r) (auto simp: outcome_def and_then_def)

lemma outcome_invalid: "outcome (invalid m) = None"
  by (simp add: outcome_def invalid_def)

lemma outcome_required:
  "outcome (required_field d nm alias bn f)
     = (case lookup_field d nm alias bn of None \<Rightarrow> None | Some (k, v) \<Rightarrow> outcome (f v))"
  by (cases "lookup_field d nm alias bn")
     (auto simp: required_field_def outcome_at_loc outcome_invalid)

lemma outcome_default:
  "outcome (default_field d nm alias bn dflt f)
     = (case lookup_field d nm alias bn of None \<Rightarrow> Some dflt | Some (k, v) \<Rightarrow> outcome (f v))"
  by (cases "lookup_field d nm alias bn")
     (auto simp: default_field_def outcome_at_loc outcome_Inr)

lemmas outcome_simps = outcome_at_loc outcome_both outcome_map_sum outcome_field_validator
  outcome_and_then outcome_invalid outcome_required outcome_default

text \<open>
  Claim C8, amended.  The model declares the four top-level fields without alias, so
  they are read under \<^verbatim>\<open>balances\<close>, \<^verbatim>\<open>multipliers\<close>, \<^verbatim>\<open>start_dates\<close> and
  \<^verbatim>\<open>zklend_position\<close>.  A payload that lacks any of these four keys fails validation:
  no default stands in for a missing field.
\<close>

theorem DashboardResponse_requires_every_field:
  assumes "map_of payload ''balances'' = None \<or> map_of payload ''multipliers'' = None
           \<or> map_of payload ''start_dates'' = None \<or> map_of payload ''zklend_position'' = None"
  shows "isl (DashboardResponse_validate L payload)"
proof -
  have "outcome (DashboardResponse_validate L payload) = None"
    using assms
    by (auto simp: DashboardResponse_validate_def outcome_simps lookup_field_def split: option.splits)
  then show ?thesis by (simp add: outcome_None)
qed

text \<open>
  The amended claim C8 at a payload that has no start dates under either spelling.
\<close>

theorem DashboardResponse_requires_every_field_witness:
  "map_of [(''balances'', PDict [(''ETH'', PFloat 5)]),
           (''multipliers'', PDict [(''ETH'', PInt 2)]),
           (''zklend_position'', PDict [])] ''start_dates'' = None
   \<and> isl (DashboardResponse_validate sample_library
            [(''balances'', PDict [(''ETH'', PFloat 5)]),
             (''multipliers'', PDict [(''ETH'', PInt 2)]),
             (''zklend_position'', PDict [])])"
  using DashboardResponse_requires_every_field
          [of "[(''balances'', PDict [(''ETH'', PFloat 5)]),
                (''multipliers'', PDict [(''ETH'', PInt 2)]),
                (''zklend_position'', PDict [])]" sample_library]
  by simp

text \<open>
  Claim C8 as stated fails: a payload with the keys \<^verbatim>\<open>balances\<close>,
  \<^verbatim>\<open>multipliers\<close>, \<^verbatim>\<open>start_dates\<close> and \<^verbatim>\<open>zklend_position\<close> has neither
  \<^verbatim>\<open>startDates\<close> nor \<^verbatim>\<open>zklendPosition\<close>, and validates.
\<close>

theorem DashboardResponse_without_wire_names:
  "map_of [(''balances'', PDict [(''ETH'', PFloat 5)]),
           (''multipliers'', PDict [(''ETH'', PInt 2)]),
           (''start_dates'', PDict [(''ETH'', PNone)]),
           (''zklend_position'', PDict [])] ''startDates'' = None
   \<and> map_of [(''balances'', PDict [(''ETH'', PFloat 5)]),
           (''multipliers'', PDict [(''ETH'', PInt 2)]),
           (''start_dates'', PDict [(''ETH'', PNone)]),
           (''zklend_position'', PDict [])] ''zklendPosition'' = None
   \<and> DashboardResponse_validate sample_library
         [(''balances'', PDict [(''ETH'', PFloat 5)]),
          (''multipliers'', PDict [(''ETH'', PInt 2)]),
          (''start_dates'', PDict [(''ETH'', PNone)]),
          (''zklend_position'', PDict [])]
       = Inr \<lparr>balances = [(''ETH'', PFloat 5)], multipliers = [(''ETH'', Some 2)],
              start_dates = [(''ETH'', None)], zklend_position = \<lparr>products = []\<rparr>\<rparr>"
  by (simp add: DashboardResponse_validate_def required_field_def lookup_field_def
        dict_validator_def nullable_def of_library_def sample_library_def at_loc_def both_def
        ZkLendPositionResponse_validate_def default_field_def)

text \<open>
  Claim C9.  A raw \<^verbatim>\<open>ZkLendPositionResponse\<close> without the key \<^verbatim>\<open>products\<close>
  validates to an empty sequence of products.
\<close>

theorem ZkLendPositionResponse_products_default:
  assumes "map_of d ''products'' = None"
  shows "ZkLendPositionResponse_validate L (PDict d) = Inr \<lparr>products = []\<rparr>"
  using assms by (simp add: ZkLendPositionResponse_validate_def default_field_def lookup_field_def)

text \<open>
  Claim C9 at a dictionary with one unrelated key.
\<close>

theorem ZkLendPositionResponse_products_default_witness:
  "ZkLendPositionResponse_validate sample_library (PDict [(''other'', PNone)]) = Inr \<lparr>products = []\<rparr>"
  using ZkLendPositionResponse_products_default [of "[(''other'', PNone)]" sample_library] by simp

lemma outcome_str_validator:
  "outcome (str_validator v) = (case v of PStr s \<Rightarrow> Some s | _ \<Rightarrow> None)"
  by (cases v) (auto simp: str_validator_def outcome_def invalid_def)

lemma Product_validate_Inr:
  "Product_validate L d = Inr x \<longleftrightarrow>
     map_of d ''name'' = Some (PStr (name x))
     \<and> map_of d ''health_ratio'' = Some (PStr (health_ratio x))
     \<and> (\<exists>pv. map_of d ''positions'' = Some pv
              \<and> list_validator (Position_validate L) pv = Inr (positions x))"
proof -
  have "Product_validate L d = Inr x \<longleftrightarrow> outcome (Product_validate L d) = Some x"
    by (simp add: outcome_Some)
  also have "\<dots> \<longleftrightarrow> map_of d ''name'' = Some (PStr (name x))
     \<and> map_of d ''health_ratio'' = Some (PStr (health_ratio x))
     \<and> (\<exists>pv. map_of d ''positions'' = Some pv
              \<and> outcome (list_validator (Position_validate L) pv) = Some (positions x))"
    by (cases x)
       (auto simp: Product_validate_def outcome_simps outcome_str_validator lookup_field_def
             split: option.splits pyval.splits)
  finally show ?thesis by (simp add: outcome_Some)
qed

lemma convert_product_group_one:
  assumes "map_of d ''groups'' = Some (PDict g)" "map_of g ''1'' = Some (PDict g1)"
    and "map_of g1 ''healthRatio'' = Some (PStr (health_ratio x))"
    and "map_of d ''name'' = Some (PStr (name x))"
    and "map_of d ''positions'' = Some pv"
    and "list_validator (Position_validate L) pv = Inr (positions x)"
  shows "convert_product L (PDict d)
           = (PDict (AList.update ''health_ratio'' (PStr (health_ratio x)) (AList.delete ''groups'' d)),
              Inr x)"
proof -
  let ?d' = "AList.update ''health_ratio'' (PStr (health_ratio x)) (AList.delete ''groups'' d)"
  have 1: "health_ratio_of_groups (PDict g) = Inr (PStr (health_ratio x))"
    using assms(2,3) by (simp add: health_ratio_of_groups_def)
  have 2: "convert_product L (PDict d) = (PDict ?d', Product_validate L ?d')"
    using assms(1) 1 by (simp add: convert_product_def Let_def)
  have 3: "map_of ?d' k = (if k = ''health_ratio'' then Some (PStr (health_ratio x))
                           else if k = ''groups'' then None else map_of d k)" for k
    by (simp add: update_conv' delete_conv')
  have "Product_validate L ?d' = Inr x"
    using assms(4,5,6) by (simp add: Product_validate_Inr 3)
  then show ?thesis using 2 by simp
qed

lemma convert_products_loop_success:
  assumes "list_all2 (\<lambda>d x. convert_product L (PDict d) = (PDict (U d x), Inr x)) ds xs"
  shows "convert_products_loop L (map PDict ds) acc
           = (map2 (\<lambda>d x. PDict (U d x)) ds xs, Inr (acc @ xs))"
  using assms
proof (induction arbitrary: acc rule: list_all2_induct)
  case Nil
  show ?case by simp
next
  case (Cons d ds x xs)
  show ?case using Cons.hyps(1) Cons.IH [of "acc @ [x]"] by simp
qed

lemma convert_products_loop_prefix:
  "convert_products_loop L ps acc = (ps', Inr out) \<Longrightarrow> \<exists>ys. out = acc @ ys"
proof (induction ps arbitrary: acc ps')
  case Nil
  then show ?case by simp
next
  case (Cons p ps)
  obtain p1 r1 where c: "convert_product L p = (p1, r1)" by (cases "convert_product L p")
  obtain x where x: "r1 = Inr x" using Cons.prems c by (cases r1) auto
  obtain ps1 where "convert_products_loop L ps (acc @ [x]) = (ps1, Inr out)"
    using Cons.prems c x by (auto split: prod.splits)
  from Cons.IH [OF this] show ?case by auto
qed

lemma convert_products_first:
  assumes "map_of d ''groups'' = Some (PDict g)" "map_of g ''1'' = Some (PDict g1)"
    and "map_of g1 ''healthRatio'' = Some h"
  shows "\<exists>ps' r. convert_products L (PList (PDict d # rest))
             = (PList (PDict (AList.update ''health_ratio'' h (AList.delete ''groups'' d)) # ps'), r)
           \<and> (\<forall>xs. r = Inr xs \<longrightarrow> xs \<noteq> [] \<and> h = PStr (health_ratio (hd xs)))"
proof -
  let ?d' = "AList.update ''health_ratio'' h (AList.delete ''groups'' d)"
  have 1: "health_ratio_of_groups (PDict g) = Inr h"
    using assms(2,3) by (simp add: health_ratio_of_groups_def)
  have 2: "convert_product L (PDict d) = (PDict ?d', Product_validate L ?d')"
    using assms(1) 1 by (simp add: convert_product_def Let_def)
  have 3: "map_of ?d' ''health_ratio'' = Some h"
    by (simp add: update_conv')
  show ?thesis
  proof (cases "Product_validate L ?d'")
    case (Inl f)
    then show ?thesis using 2 by (simp add: convert_products_def)
  next
    case (Inr x)
    obtain ps1 r1 where l: "convert_products_loop L rest ([] @ [x]) = (ps1, r1)"
      by (cases "convert_products_loop L rest ([] @ [x])")
    have h: "h = PStr (health_ratio x)"
      using Inr 3 by (simp add: Product_validate_Inr)
    have "xs \<noteq> [] \<and> h = PStr (health_ratio (hd xs))" if "r1 = Inr xs" for xs
      using convert_products_loop_prefix [OF l [unfolded that]] h by auto
    then show ?thesis using 2 Inr l by (simp add: convert_products_def)
  qed
qed

text \<open>
  Claim C7.  For every list of raw products, each of whose \<^verbatim>\<open>groups\<close> maps
  \<^verbatim>\<open>"1"\<close> to a dictionary with a \<^verbatim>\<open>healthRatio\<close> (a string, as the field
  \<^verbatim>\<open>health_ratio: str\<close> takes no other value) and whose name and positions are valid:
  \<^verbatim>\<open>convert_products\<close> returns one product for each raw product, in order, with that
  name, those positions and the health ratio of group \<^verbatim>\<open>"1"\<close>; every product
  dictionary is left without \<^verbatim>\<open>groups\<close> and with \<^verbatim>\<open>health_ratio\<close> set to that
  value; the other groups, whatever they are, play no part and raise no error; and the
  validation of a \<^verbatim>\<open>ZkLendPositionResponse\<close> with these products yields exactly
  them.  Moreover, whatever the value \<open>h\<close> of \<^verbatim>\<open>healthRatio\<close> in group \<^verbatim>\<open>"1"\<close>
  of the first product and whatever follows it, that product's dictionary is left without
  \<^verbatim>\<open>groups\<close> and with \<^verbatim>\<open>health_ratio\<close> set to \<open>h\<close>, and when the conversion
  succeeds the health ratio of the first product returned is \<open>h\<close>.
\<close>

theorem convert_products_health_ratio:
  assumes "list_all2 (\<lambda>d x. \<exists>g g1 pv.
              map_of d ''groups'' = Some (PDict g) \<and> map_of g ''1'' = Some (PDict g1)
              \<and> map_of g1 ''healthRatio'' = Some (PStr (health_ratio x))
              \<and> map_of d ''name'' = Some (PStr (name x))
              \<and> map_of d ''positions'' = Some pv
              \<and> list_validator (Position_validate L) pv = Inr (positions x)) ds xs"
  shows "convert_products L (PList (map PDict ds))
           = (PList (map2 (\<lambda>d x. PDict (AList.update ''health_ratio'' (PStr (health_ratio x))
                                          (AList.delete ''groups'' d))) ds xs),
              Inr xs)
         \<and> ZkLendPositionResponse_validate L (PDict [(''products'', PList (map PDict ds))])
           = Inr \<lparr>products = xs\<rparr>
         \<and> (\<forall>d g g1 h rest.
               map_of d ''groups'' = Some (PDict g) \<and> map_of g ''1'' = Some (PDict g1)
               \<and> map_of g1 ''healthRatio'' = Some h
               \<longrightarrow> (\<exists>ps' r. convert_products L (PList (PDict d # rest))
                      = (PList (PDict (AList.update ''health_ratio'' h (AList.delete ''groups'' d)) # ps'), r)
                    \<and> (\<forall>ys. r = Inr ys \<longrightarrow> ys \<noteq> [] \<and> h = PStr (health_ratio (hd ys)))))"
proof -
  have "list_all2 (\<lambda>d x. convert_product L (PDict d)
           = (PDict (AList.update ''health_ratio'' (PStr (health_ratio x)) (AList.delete ''groups'' d)),
              Inr x)) ds xs"
    using assms by (rule list_all2_mono) (auto intro: convert_product_group_one)
  then have l: "convert_products_loop L (map PDict ds) []
           = (map2 (\<lambda>d x. PDict (AList.update ''health_ratio'' (PStr (health_ratio x))
                                    (AList.delete ''groups'' d))) ds xs, Inr ([] @ xs))"
    by (rule convert_products_loop_success)
  then have c: "convert_products L (PList (map PDict ds))
           = (PList (map2 (\<lambda>d x. PDict (AList.update ''health_ratio'' (PStr (health_ratio x))
                                          (AList.delete ''groups'' d))) ds xs), Inr xs)"
    by (simp add: convert_products_def)
  have z: "ZkLendPositionResponse_validate L (PDict [(''products'', PList (map PDict ds))])
           = Inr \<lparr>products = xs\<rparr>"
    by (simp add: ZkLendPositionResponse_validate_def default_field_def lookup_field_def c
          field_validator_def at_loc_def)
  have f: "\<forall>d g g1 h rest.
               map_of d ''groups'' = Some (PDict g) \<and> map_of g ''1'' = Some (PDict g1)
               \<and> map_of g1 ''healthRatio'' = Some h
               \<longrightarrow> (\<exists>ps' r. convert_products L (PList (PDict d # rest))
                      = (PList (PDict (AList.update ''health_ratio'' h (AList.delete ''groups'' d)) # ps'), r)
                    \<and> (\<forall>ys. r = Inr ys \<longrightarrow> ys \<noteq> [] \<and> h = PStr (health_ratio (hd ys))))"
    by (intro allI impI, elim conjE) (rule convert_products_first)
  from c z f show ?thesis by (intro conjI)
qed

text \<open>
  Claim C7 at two products: the product of the specification, with a second group that
  is discarded, and a product whose group \<^verbatim>\<open>"1"\<close> comes after another group.
\<close>

theorem convert_products_health_ratio_witness:
  "convert_products sample_library
     (PList [PDict [(''name'', PStr ''P1''),
                    (''groups'', PDict [(''1'', PDict [(''healthRatio'', PStr ''1.5'')]),
                                        (''2'', PDict [(''healthRatio'', PStr ''9'')])]),
                    (''positions'', PList [])],
             PDict [(''groups'', PDict [(''2'', PNone), (''1'', PDict [(''healthRatio'', PStr ''0.7'')])]),
                    (''name'', PStr ''P2''),
                    (''positions'', PList [])]])
   = (PList [PDict [(''name'', PStr ''P1''), (''positions'', PList []), (''health_ratio'', PStr ''1.5'')],
             PDict [(''name'', PStr ''P2''), (''positions'', PList []), (''health_ratio'', PStr ''0.7'')]],
      Inr [\<lparr>name = ''P1'', health_ratio = ''1.5'', positions = []\<rparr>,
           \<lparr>name = ''P2'', health_ratio = ''0.7'', positions = []\<rparr>])
   \<and> ZkLendPositionResponse_validate sample_library
       (PDict [(''products'',
          PList [PDict [(''name'', PStr ''P1''),
                        (''groups'', PDict [(''1'', PDict [(''healthRatio'', PStr ''1.5'')]),
                                            (''2'', PDict [(''healthRatio'', PStr ''9'')])]),
                        (''positions'', PList [])],
                 PDict [(''groups'', PDict [(''2'', PNone), (''1'', PDict [(''healthRatio'', PStr ''0.7'')])]),
                        (''name'', PStr ''P2''),
                        (''positions'', PList [])]])])
     = Inr \<lparr>products = [\<lparr>name = ''P1'', health_ratio = ''1.5'', positions = []\<rparr>,
                          \<lparr>name = ''P2'', health_ratio = ''0.7'', positions = []\<rparr>]\<rparr>"
proof -
  let ?d1 = "[(''name'', PStr ''P1''),
              (''groups'', PDict [(''1'', PDict [(''healthRatio'', PStr ''1.5'')]),
                                  (''2'', PDict [(''healthRatio'', PStr ''9'')])]),
              (''positions'', PList [])]"
  let ?d2 = "[(''groups'', PDict [(''2'', PNone), (''1'', PDict [(''healthRatio'', PStr ''0.7'')])]),
              (''name'', PStr ''P2''),
              (''positions'', PList [])]"
  let ?x1 = "\<lparr>name = ''P1'', health_ratio = ''1.5'', positions = []\<rparr>"
  let ?x2 = "\<lparr>name = ''P2'', health_ratio = ''0.7'', positions = []\<rparr>"
  have h: "list_all2 (\<lambda>d x. \<exists>g g1 pv.
              map_of d ''groups'' = Some (PDict g) \<and> map_of g ''1'' = Some (PDict g1)
              \<and> map_of g1 ''healthRatio'' = Some (PStr (health_ratio x))
              \<and> map_of d ''name'' = Some (PStr (name x))
              \<and> map_of d ''positions'' = Some pv
              \<and> list_validator (Position_validate sample_library) pv = Inr (positions x))
            [?d1, ?d2] [?x1, ?x2]"
    by (simp add: list_validator_def)
  have u: "map2 (\<lambda>d x. PDict (AList.update ''health_ratio'' (PStr (health_ratio x))
                                 (AList.delete ''groups'' d))) [?d1, ?d2] [?x1, ?x2]
             = [PDict [(''name'', PStr ''P1''), (''positions'', PList []), (''health_ratio'', PStr ''1.5'')],
                PDict [(''name'', PStr ''P2''), (''positions'', PList []), (''health_ratio'', PStr ''0.7'')]]"
    by (simp add: AList.delete_eq)
  note t = convert_products_health_ratio [OF h]
  show ?thesis
    using t [THEN conjunct1] t [THEN conjunct2, THEN conjunct1] unfolding u by simp
qed




lemma Product_validate_null_health_ratio:
  "isl (Product_validate L (AList.update ''health_ratio'' PNone d))"
proof (cases "Product_validate L (AList.update ''health_ratio'' PNone d)")
  case (Inr x)
  then show ?thesis by (simp add: Product_validate_Inr update_conv')
qed simp

text \<open>
  Claim C1, where the code departs from it.  The claim: a raw product without
  \<^verbatim>\<open>groups\<close>, or whose groups lack the key \<^verbatim>\<open>"1"\<close>, is converted without error
  to a product with a null health ratio.  The code, for every environment, every such
  product at the head of the list and whatever follows it: without \<^verbatim>\<open>groups\<close> the
  \<^verbatim>\<open>pop\<close> returns \<^verbatim>\<open>None\<close> and \<^verbatim>\<open>None.get\<close> raises \<^verbatim>\<open>AttributeError\<close>;
  without group \<^verbatim>\<open>"1"\<close> the extracted health ratio is \<^verbatim>\<open>None\<close>, which the
  required string field \<^verbatim>\<open>health_ratio\<close> of \<^verbatim>\<open>Product\<close> rejects, so the
  conversion fails.
\<close>

theorem convert_products_without_group_one:
  "(map_of d ''groups'' = None \<longrightarrow>
      snd (convert_products L (PList (PDict d # rest))) = Inl (Raised (no_attribute PNone ''get'')))
   \<and> (map_of d ''groups'' = Some (PDict g) \<and> map_of g ''1'' = None \<longrightarrow>
      isl (snd (convert_products L (PList (PDict d # rest)))))"
proof (intro conjI impI)
  assume "map_of d ''groups'' = None"
  then show "snd (convert_products L (PList (PDict d # rest))) = Inl (Raised (no_attribute PNone ''get''))"
    by (simp add: convert_products_def convert_product_def health_ratio_of_groups_def)
next
  assume a: "map_of d ''groups'' = Some (PDict g) \<and> map_of g ''1'' = None"
  let ?d' = "AList.update ''health_ratio'' PNone (AList.delete ''groups'' d)"
  have c: "convert_product L (PDict d) = (PDict ?d', Product_validate L ?d')"
    using a by (simp add: convert_product_def health_ratio_of_groups_def Let_def)
  obtain f where "Product_validate L ?d' = Inl f"
    using Product_validate_null_health_ratio [of L "AList.delete ''groups'' d"]
    by (cases "Product_validate L ?d'") auto
  then show "isl (snd (convert_products L (PList (PDict d # rest))))"
    using c by (simp add: convert_products_def)
qed

text \<open>
  Both cases at a product with a name and no position: the \<^verbatim>\<open>AttributeError\<close>, and
  the validation error at \<^verbatim>\<open>health_ratio\<close>.
\<close>

theorem convert_products_without_group_one_witness:
  "snd (convert_products sample_library (PList [PDict [(''name'', PStr ''P1''), (''positions'', PList [])]]))
     = Inl (Raised (no_attribute PNone ''get''))
   \<and> snd (convert_products sample_library
       (PList [PDict [(''name'', PStr ''P1''), (''groups'', PDict []), (''positions'', PList [])]]))
     = Inl (ValidationError [([Key ''health_ratio''], ''Input should be a valid string'')])
   \<and> isl (snd (convert_products sample_library
       (PList [PDict [(''name'', PStr ''P1''), (''groups'', PDict []), (''positions'', PList [])]])))"
proof -
  have 1: "snd (convert_products sample_library
               (PList [PDict [(''name'', PStr ''P1''), (''positions'', PList [])]]))
             = Inl (Raised (no_attribute PNone ''get''))"
    using convert_products_without_group_one
            [of "[(''name'', PStr ''P1''), (''positions'', PList [])]" sample_library "[]"]
    by simp
  have 2: "isl (snd (convert_products sample_library
               (PList [PDict [(''name'', PStr ''P1''), (''groups'', PDict []), (''positions'', PList [])]])))"
    using convert_products_without_group_one
            [of "[(''name'', PStr ''P1''), (''groups'', PDict []), (''positions'', PList [])]"
                sample_library "[]" "[]"]
    by simp
  have 3: "snd (convert_products sample_library
       (PList [PDict [(''name'', PStr ''P1''), (''groups'', PDict []), (''positions'', PList [])]]))
     = Inl (ValidationError [([Key ''health_ratio''], ''Input should be a valid string'')])"
    by (simp add: convert_products_def convert_product_def health_ratio_of_groups_def
          Product_validate_def required_field_def lookup_field_def AList.delete_eq
          str_validator_def list_validator_def at_loc_def invalid_def both_def)
  from 1 3 2 show ?thesis by (intro conjI)
qed

section \<open>Wire names and field names\<close>

lemma rename_other:
  "k \<noteq> a \<Longrightarrow> k \<noteq> b \<Longrightarrow> k \<noteq> a' \<Longrightarrow> k \<noteq> b' \<Longrightarrow>
   map_of (map (\<lambda>(k, v). (if k = a then a' else if k = b then b' else k, v)) d) k = map_of d k"
  by (induction d) (auto split: if_splits)

lemma rename_old:
  "a \<noteq> a' \<Longrightarrow> a \<noteq> b' \<Longrightarrow>
   map_of (map (\<lambda>(k, v). (if k = a then a' else if k = b then b' else k, v)) d) a = None"
  by (induction d) (auto split: if_splits)

lemma rename_old2:
  "b \<noteq> a' \<Longrightarrow> b \<noteq> b' \<Longrightarrow>
   map_of (map (\<lambda>(k, v). (if k = a then a' else if k = b then b' else k, v)) d) b = None"
  by (induction d) (auto split: if_splits)

lemma rename_new:
  "list_all (\<lambda>(k, v). k \<noteq> a' \<and> k \<noteq> b') d \<Longrightarrow> a' \<noteq> b' \<Longrightarrow>
   map_of (map (\<lambda>(k, v). (if k = a then a' else if k = b then b' else k, v)) d) a' = map_of d a"
  by (induction d) (auto split: if_splits)

lemma rename_new2:
  "list_all (\<lambda>(k, v). k \<noteq> a' \<and> k \<noteq> b') d \<Longrightarrow> a' \<noteq> b' \<Longrightarrow> a \<noteq> b \<Longrightarrow>
   map_of (map (\<lambda>(k, v). (if k = a then a' else if k = b then b' else k, v)) d) b' = map_of d b"
  by (induction d) (auto split: if_splits)

lemma absent_lookup:
  "list_all (\<lambda>(k, v). k \<noteq> a \<and> k \<noteq> b) d \<Longrightarrow> map_of d a = None \<and> map_of d b = None"
  by (induction d) (auto split: if_splits)

lemma rename_lookup:
  assumes "list_all (\<lambda>(k, v). k \<noteq> a' \<and> k \<noteq> b') d"
    and "a \<noteq> b" "a \<noteq> a'" "a \<noteq> b'" "b \<noteq> a'" "b \<noteq> b'" "a' \<noteq> b'"
  shows "map_of (map (\<lambda>(k, v). (if k = a then a' else if k = b then b' else k, v)) d) k =
     (if k = a \<or> k = b then None
      else if k = a' then map_of d a
      else if k = b' then map_of d b
      else map_of d k)"
proof -
  consider "k = a" | "k = b" | "k = a'" | "k = b'" | "k \<noteq> a" "k \<noteq> b" "k \<noteq> a'" "k \<noteq> b'"
    by blast
  then show ?thesis
  proof cases
    case 1
    then show ?thesis using rename_old [OF assms(3,4), of b d] by simp
  next
    case 2
    then show ?thesis using rename_old2 [OF assms(5,6), of a d] by simp
  next
    case 3
    then show ?thesis using rename_new [OF assms(1,7), of a b] assms(3,5) by simp
  next
    case 4
    then show ?thesis using rename_new2 [OF assms(1,7,2)] assms(4,6,7) by simp
  next
    case 5
    then show ?thesis using rename_other [OF 5, of d] by simp
  qed
qed

lemma wire_lookup:
  assumes "no_wire_keys d"
  shows "map_of (to_wire_names d) k =
     (if k = ''token_address'' \<or> k = ''total_balances'' then None
      else if k = ''tokenAddress'' then map_of d ''token_address''
      else if k = ''totalBalances'' then map_of d ''total_balances''
      else map_of d k)"
  using assms unfolding to_wire_names_def no_wire_keys_def wire_key_def
  by (rule rename_lookup) simp_all

lemma no_wire_lookup:
  "no_wire_keys d \<Longrightarrow> map_of d ''tokenAddress'' = None \<and> map_of d ''totalBalances'' = None"
  unfolding no_wire_keys_def by (rule absent_lookup)

lemma wire_required:
  assumes "no_wire_keys d" "nm \<noteq> ''token_address''" "nm \<noteq> ''total_balances''"
    and "nm \<noteq> ''tokenAddress''" "nm \<noteq> ''totalBalances''"
  shows "outcome (required_field (to_wire_names d) nm None False V)
           = outcome (required_field d nm None False V)"
  using assms(2-5)
  by (simp add: outcome_required lookup_field_def wire_lookup [OF assms(1)])

lemma wire_token_address:
  assumes "no_wire_keys d"
  shows "outcome (default_field (to_wire_names d) ''token_address'' (Some ''tokenAddress'') True x V)
           = outcome (default_field d ''token_address'' (Some ''tokenAddress'') True x V)"
  using no_wire_lookup [OF assms]
  by (cases "map_of d ''token_address''")
     (simp_all add: outcome_default lookup_field_def wire_lookup [OF assms])

lemma wire_total_balances:
  assumes "no_wire_keys d"
  shows "outcome (required_field (to_wire_names d) ''total_balances'' (Some ''totalBalances'') True V)
           = outcome (required_field d ''total_balances'' (Some ''totalBalances'') True V)"
  using no_wire_lookup [OF assms]
  by (cases "map_of d ''total_balances''")
     (simp_all add: outcome_required lookup_field_def wire_lookup [OF assms])

lemma Position_wire_outcome:
  assumes "no_wire_keys d"
  shows "outcome (Position_validate L (PDict (to_wire_names d)))
           = outcome (Position_validate L (PDict d))"
proof -
  have x: "outcome (required_field (to_wire_names d) ''data'' None False (Data_validate L))
             = outcome (required_field d ''data'' None False (Data_validate L))"
    by (rule wire_required [OF assms]) simp_all
  show ?thesis
    unfolding Position_validate_def pyval.case outcome_map_sum outcome_both x
      wire_token_address [OF assms] wire_total_balances [OF assms]
    by (rule refl)
qed

text \<open>
  Claim C6.  A position given under the field names \<^verbatim>\<open>token_address\<close> and
  \<^verbatim>\<open>total_balances\<close> (and carrying no wire-named key) and the same position under the
  wire names \<^verbatim>\<open>tokenAddress\<close> and \<^verbatim>\<open>totalBalances\<close> are accepted alike, with the
  same validated position.
\<close>

theorem Position_accepts_both_spellings:
  assumes "no_wire_keys d"
  shows "Position_validate L (PDict (to_wire_names d)) = Inr x
           \<longleftrightarrow> Position_validate L (PDict d) = Inr x"
proof -
  have "Position_validate L (PDict (to_wire_names d)) = Inr x
          \<longleftrightarrow> outcome (Position_validate L (PDict (to_wire_names d))) = Some x"
    by (simp add: outcome_Some)
  also have "\<dots> \<longleftrightarrow> outcome (Position_validate L (PDict d)) = Some x"
    by (simp add: Position_wire_outcome [OF assms])
  finally show ?thesis by (simp add: outcome_Some)
qed

lemma map_of_map_key:
  "map_of (map_key k f d) k' = (if k' = k then map_option f (map_of d k) else map_of d k')"
  by (induction d) (auto simp: map_key_def)

lemma key_holds_lookup: "key_holds k P d \<Longrightarrow> map_of d k = Some v \<Longrightarrow> P v"
  by (induction d) (auto simp: key_holds_def split: if_splits)

lemma delete_map_key: "AList.delete k' (map_key k f d) = map_key k f (AList.delete k' d)"
  by (induction d) (auto simp: map_key_def)

lemma update_map_key:
  "k' \<noteq> k \<Longrightarrow> AList.update k' v (map_key k f d) = map_key k f (AList.update k' v d)"
  by (induction d) (auto simp: map_key_def)

lemma key_holds_delete: "key_holds k P d \<Longrightarrow> key_holds k P (AList.delete k' d)"
  by (induction d) (auto simp: key_holds_def)

lemma key_holds_update: "k' \<noteq> k \<Longrightarrow> key_holds k P d \<Longrightarrow> key_holds k P (AList.update k' v d)"
  by (induction d) (auto simp: key_holds_def)

lemma Position_wire_value:
  assumes "dict_holds no_wire_keys v"
  shows "outcome (Position_validate L (in_dict to_wire_names v)) = outcome (Position_validate L v)"
  using assms by (cases v) (simp_all add: in_dict_def dict_holds_def Position_wire_outcome)

lemma list_items_cong:
  assumes "\<And>x. x \<in> set xs \<Longrightarrow> outcome (f (h x)) = outcome (f x)"
  shows "outcome (list_items f i (map h xs)) = outcome (list_items f i xs)"
  using assms by (induction xs arbitrary: i) (auto simp: outcome_simps split: option.splits)

lemma positions_wire:
  assumes "list_holds (dict_holds no_wire_keys) v"
  shows "outcome (list_validator (Position_validate L) (in_list (in_dict to_wire_names) v))
           = outcome (list_validator (Position_validate L) v)"
proof (cases v)
  case (PList xs)
  have "outcome (list_items (Position_validate L) 0 (map (in_dict to_wire_names) xs))
          = outcome (list_items (Position_validate L) 0 xs)"
    using assms PList
    by (intro list_items_cong Position_wire_value) (simp add: list_holds_def list_all_iff)
  then show ?thesis using PList by (simp add: in_list_def list_validator_def)
qed (simp_all add: in_list_def)

lemma required_other:
  "nm \<noteq> k \<Longrightarrow>
     outcome (required_field (map_key k g d) nm None bn V) = outcome (required_field d nm None bn V)"
  by (simp add: outcome_required lookup_field_def map_of_map_key)

lemma required_same:
  assumes "\<And>v. map_of d k = Some v \<Longrightarrow> outcome (V (g v)) = outcome (V v)"
  shows "outcome (required_field (map_key k g d) k None bn V) = outcome (required_field d k None bn V)"
  using assms
  by (cases "map_of d k") (simp_all add: outcome_required lookup_field_def map_of_map_key)

lemma default_same:
  assumes "\<And>v. map_of d k = Some v \<Longrightarrow> outcome (V (g v)) = outcome (V v)"
  shows "outcome (default_field (map_key k g d) k None bn x V) = outcome (default_field d k None bn x V)"
  using assms
  by (cases "map_of d k") (simp_all add: outcome_default lookup_field_def map_of_map_key)

lemma Product_wire:
  assumes "key_holds ''positions'' (list_holds (dict_holds no_wire_keys)) d"
  shows "outcome (Product_validate L (map_key ''positions'' (in_list (in_dict to_wire_names)) d))
           = outcome (Product_validate L d)"
proof -
  let ?g = "in_list (in_dict to_wire_names)"
  have n: "outcome (required_field (map_key ''positions'' ?g d) ''name'' None False str_validator)
             = outcome (required_field d ''name'' None False str_validator)"
    by (rule required_other) simp
  have h: "outcome (required_field (map_key ''positions'' ?g d) ''health_ratio'' None False str_validator)
             = outcome (required_field d ''health_ratio'' None False str_validator)"
    by (rule required_other) simp
  have p: "outcome (required_field (map_key ''positions'' ?g d) ''positions'' None False
                      (list_validator (Position_validate L)))
             = outcome (required_field d ''positions'' None False (list_validator (Position_validate L)))"
    by (rule required_same) (rule positions_wire, erule key_holds_lookup [OF assms])
  show ?thesis
    unfolding Product_validate_def outcome_map_sum outcome_both n h p by (rule refl)
qed

lemma convert_product_wire:
  assumes "product_internal p"
  shows "outcome (snd (convert_product L (product_to_wire p))) = outcome (snd (convert_product L p))"
proof (cases p)
  case (PDict d)
  let ?g = "in_list (in_dict to_wire_names)"
  let ?P = "list_holds (dict_holds no_wire_keys)"
  have kh: "key_holds ''positions'' ?P d"
    using assms PDict by (simp add: product_internal_def dict_holds_def)
  have 1: "map_of (map_key ''positions'' ?g d) ''groups'' = map_of d ''groups''"
    by (simp add: map_of_map_key)
  have 2: "AList.update ''health_ratio'' h (AList.delete ''groups'' (map_key ''positions'' ?g d))
             = map_key ''positions'' ?g (AList.update ''health_ratio'' h (AList.delete ''groups'' d))" for h
    by (simp add: delete_map_key update_map_key)
  have 3: "key_holds ''positions'' ?P (AList.update ''health_ratio'' h (AList.delete ''groups'' d))" for h
    by (intro key_holds_update key_holds_delete kh) simp
  show ?thesis
    using PDict
    by (simp add: product_to_wire_def in_dict_def convert_product_def Let_def 1 2 Product_wire [OF 3]
          outcome_Inl split: sum.splits)
qed (simp_all add: product_to_wire_def in_dict_def)

lemma snd_case_prod: "snd (case x of (a, b) \<Rightarrow> (f a, b)) = snd x"
  by (cases x) simp

lemma convert_products_loop_wire:
  assumes "list_all product_internal ps"
  shows "outcome (snd (convert_products_loop L (map product_to_wire ps) acc))
           = outcome (snd (convert_products_loop L ps acc))"
  using assms
proof (induction ps arbitrary: acc)
  case Nil
  show ?case by simp
next
  case (Cons p ps)
  obtain p1 r1 where a: "convert_product L p = (p1, r1)" by (cases "convert_product L p")
  obtain p2 r2 where b: "convert_product L (product_to_wire p) = (p2, r2)"
    by (cases "convert_product L (product_to_wire p)")
  have o: "outcome r2 = outcome r1" using convert_product_wire [of p L] Cons.prems a b by simp
  show ?case
  proof (cases r1)
    case (Inl f)
    then obtain f' where "r2 = Inl f'" using o by (cases r2) (auto simp: outcome_def)
    then show ?thesis using a b Inl by (simp add: outcome_Inl)
  next
    case (Inr x)
    then have "r2 = Inr x" using o by (cases r2) (auto simp: outcome_def)
    then show ?thesis
      using a b Inr Cons.IH [of "acc @ [x]"] Cons.prems by (simp add: snd_case_prod)
  qed
qed

lemma convert_products_wire:
  assumes "list_holds product_internal v"
  shows "outcome (snd (convert_products L (in_list product_to_wire v)))
           = outcome (snd (convert_products L v))"
  using assms
  by (cases v)
     (simp_all add: in_list_def list_holds_def convert_products_def convert_products_loop_wire
        snd_case_prod)

lemma ZkLend_wire:
  assumes "dict_holds (key_holds ''products'' (list_holds product_internal)) v"
  shows "outcome (ZkLendPositionResponse_validate L
                    (in_dict (map_key ''products'' (in_list product_to_wire)) v))
           = outcome (ZkLendPositionResponse_validate L v)"
proof (cases v)
  case (PDict d)
  have kh: "key_holds ''products'' (list_holds product_internal) d"
    using assms PDict by (simp add: dict_holds_def)
  have p: "outcome (default_field (map_key ''products'' (in_list product_to_wire) d) ''products''
                      None True [] (\<lambda>raw. field_validator (snd (convert_products L raw))))
             = outcome (default_field d ''products'' None True []
                      (\<lambda>raw. field_validator (snd (convert_products L raw))))"
    by (rule default_same)
       (simp only: outcome_field_validator, rule convert_products_wire, erule key_holds_lookup [OF kh])
  show ?thesis
    unfolding PDict in_dict_def pyval.case ZkLendPositionResponse_validate_def outcome_map_sum p
    by (rule refl)
qed (simp_all add: in_dict_def)

lemma DashboardResponse_wire_outcome:
  assumes "payload_internal payload"
  shows "outcome (DashboardResponse_validate L (payload_to_wire payload))
           = outcome (DashboardResponse_validate L payload)"
proof -
  let ?g = "in_dict (map_key ''products'' (in_list product_to_wire))"
  have b: "outcome (required_field (map_key ''zklend_position'' ?g payload) ''balances'' None False V)
             = outcome (required_field payload ''balances'' None False V)" for V :: "pyval \<Rightarrow> failure + 'x"
    by (rule required_other) simp
  have m: "outcome (required_field (map_key ''zklend_position'' ?g payload) ''multipliers'' None False V)
             = outcome (required_field payload ''multipliers'' None False V)" for V :: "pyval \<Rightarrow> failure + 'x"
    by (rule required_other) simp
  have s: "outcome (required_field (map_key ''zklend_position'' ?g payload) ''start_dates'' None False V)
             = outcome (required_field payload ''start_dates'' None False V)" for V :: "pyval \<Rightarrow> failure + 'x"
    by (rule required_other) simp
  have z: "outcome (required_field (map_key ''zklend_position'' ?g payload) ''zklend_position'' None False
                      (ZkLendPositionResponse_validate L))
             = outcome (required_field payload ''zklend_position'' None False
                      (ZkLendPositionResponse_validate L))"
    by (rule required_same)
       (rule ZkLend_wire, erule key_holds_lookup [OF assms [unfolded payload_internal_def]])
  show ?thesis
    unfolding DashboardResponse_validate_def payload_to_wire_def outcome_map_sum outcome_both b m s z
    by (rule refl)
qed

text \<open>
  Claim C5, amended.  Only \<^verbatim>\<open>Position\<close> declares wire names.  A payload whose
  positions carry no wire-named key validates to a response \<open>x\<close> exactly when the
  payload with \<^verbatim>\<open>token_address\<close> and \<^verbatim>\<open>total_balances\<close> renamed to
  \<^verbatim>\<open>tokenAddress\<close> and \<^verbatim>\<open>totalBalances\<close> in every position validates to \<open>x\<close>.
  The top-level fields are read under their own names only.
\<close>

theorem DashboardResponse_accepts_wire_positions:
  assumes "payload_internal payload"
  shows "DashboardResponse_validate L (payload_to_wire payload) = Inr x
           \<longleftrightarrow> DashboardResponse_validate L payload = Inr x"
proof -
  have "DashboardResponse_validate L (payload_to_wire payload) = Inr x
          \<longleftrightarrow> outcome (DashboardResponse_validate L (payload_to_wire payload)) = Some x"
    by (simp add: outcome_Some)
  also have "\<dots> \<longleftrightarrow> outcome (DashboardResponse_validate L payload) = Some x"
    by (simp add: DashboardResponse_wire_outcome [OF assms])
  finally show ?thesis by (simp add: outcome_Some)
qed

section \<open>The serializers on concrete payloads\<close>

lemma example_decimals: "get_token_decimals sample_library ''0xTOK'' = Inr 6"
  by (simp add: sample_library_def)

lemma example_parse: "decimal_of_string ''1000000'' = Some (Finite False 1000000 0)"
  by (simp add: decimal_of_string_def strip_def is_space_def split_sign_def parse_number_def
        parse_exponent_def is_digit_def nat_of_digits_def digit_val_def Let_def)

lemma example_div:
  "truediv (Finite False 1000000 0) (Finite False 1000000 0) = Inr (Finite False 1 0)"
  by (simp add: truediv_def decimal_fix_def ndigits_def str_nat.simps prec_def Etop_def Etiny_def
        Emax_def Emin_def strip_zeros.simps Let_def)

lemma example_str: "decimal_str (Finite False 1 0) = ''1''"
  by code_simp

lemma example_convert_balance:
  "convert_balance sample_library ''0xTOK'' (PStr ''1000000'') = Inr ''1''"
proof -
  have d: "Decimal sample_library (PStr ''1000000'') = Inr (Finite False 1000000 0)"
    by (simp add: Decimal_def example_parse)
  have p: "decimal_of_int (10 ^ 6) = Finite False 1000000 0"
    by (simp add: decimal_of_int_def)
  show ?thesis
    by (simp only: convert_balance_def example_decimals sum.case d p example_div example_str)
qed

lemma example_balance:
  "convert_total_balances sample_library (PDict [(''0xTOK'', PStr ''1000000'')])
     = Inr [(''0xTOK'', PStr ''1'')]"
  by (simp add: convert_total_balances_def example_convert_balance)

lemma example_total_balances:
  "total_balances_validate sample_library (PDict [(''0xTOK'', PStr ''1000000'')])
     = Inr [(''0xTOK'', ''1'')]"
  by (simp add: total_balances_validate_def example_balance raised_def field_validator_def
        and_then_def TotalBalances_validate_def dict_validator_def str_validator_def at_loc_def
        both_def)

lemma example_data:
  "Data_validate sample_library (PDict [(''collateral'', PBool True), (''debt'', PBool False)])
     = Inr \<lparr>collateral = True, debt = False\<rparr>"
  by (simp add: Data_validate_def required_field_def lookup_field_def of_library_def
        sample_library_def at_loc_def both_def)

lemma example_position_by_wire_name:
  "Position_validate sample_library (example_position ''tokenAddress'' ''totalBalances'')
   = Inr \<lparr>data = \<lparr>collateral = True, debt = False\<rparr>, token_address = Some ''0xTOK'',
           total_balances = [(''0xTOK'', ''1'')]\<rparr>"
  by (simp add: example_position_def Position_validate_def required_field_def default_field_def
        lookup_field_def example_data example_total_balances nullable_def str_validator_def
        at_loc_def both_def)

lemma example_position_by_name:
  "Position_validate sample_library (example_position ''token_address'' ''total_balances'')
   = Inr \<lparr>data = \<lparr>collateral = True, debt = False\<rparr>, token_address = Some ''0xTOK'',
           total_balances = [(''0xTOK'', ''1'')]\<rparr>"
  by (simp add: example_position_def Position_validate_def required_field_def default_field_def
        lookup_field_def example_data example_total_balances nullable_def str_validator_def
        at_loc_def both_def)

lemma example_products:
  assumes "Position_validate sample_library (example_position tk tb)
   = Inr \<lparr>data = \<lparr>collateral = True, debt = False\<rparr>, token_address = Some ''0xTOK'',
           total_balances = [(''0xTOK'', ''1'')]\<rparr>"
  shows "ZkLendPositionResponse_validate sample_library
           (PDict [(''products'', PList [example_product tk tb])])
         = Inr (zklend_position example_response)"
proof -
  have 1: "list_validator (Position_validate sample_library) (PList [example_position tk tb])
         = Inr [\<lparr>data = \<lparr>collateral = True, debt = False\<rparr>, token_address = Some ''0xTOK'',
                 total_balances = [(''0xTOK'', ''1'')]\<rparr>]"
    by (simp add: list_validator_def assms at_loc_def both_def)
  have 2: "snd (convert_product sample_library (example_product tk tb))
         = Inr \<lparr>name = ''P1'', health_ratio = ''2.0'',
                 positions = [\<lparr>data = \<lparr>collateral = True, debt = False\<rparr>,
                               token_address = Some ''0xTOK'',
                               total_balances = [(''0xTOK'', ''1'')]\<rparr>]\<rparr>"
    by (simp add: convert_product_def health_ratio_of_groups_def example_product_def
          Product_validate_def required_field_def lookup_field_def AList.delete_eq
          str_validator_def 1 at_loc_def both_def)
  have 3: "snd (convert_products sample_library (PList [example_product tk tb]))
         = Inr [\<lparr>name = ''P1'', health_ratio = ''2.0'',
                 positions = [\<lparr>data = \<lparr>collateral = True, debt = False\<rparr>,
                               token_address = Some ''0xTOK'',
                               total_balances = [(''0xTOK'', ''1'')]\<rparr>]\<rparr>]"
    using 2 by (cases "convert_product sample_library (example_product tk tb)")
               (simp add: convert_products_def)
  show ?thesis
    by (simp add: ZkLendPositionResponse_validate_def default_field_def lookup_field_def 3
          field_validator_def at_loc_def example_response_def)
qed

lemma example_iso: "datetime_of_iso ''2024-01-01T00:00:00'' = Some (2024, 1, 1, 0, 0, 0)"
  by (simp add: datetime_of_iso_def days_in_month_def is_digit_def nat_of_digits_def digit_val_def
        Let_def)

lemma example_scalars:
  "int_validator sample_library (PInt 2) = Inr 2"
  "datetime_validator sample_library (PStr ''2024-01-01T00:00:00'') = Inr (2024, 1, 1, 0, 0, 0)"
  by (simp_all add: sample_library_def example_iso)

lemma example_top_level:
  assumes "ZkLendPositionResponse_validate sample_library
             (PDict [(''products'', PList [example_product tk tb])])
           = Inr (zklend_position example_response)"
  shows "DashboardResponse_validate sample_library
           (example_payload ''start_dates'' ''zklend_position'' tk tb) = Inr example_response"
  by (simp add: DashboardResponse_validate_def example_payload_def required_field_def
        lookup_field_def dict_validator_def nullable_def of_library_def example_scalars assms
        at_loc_def both_def)
     (simp add: example_response_def)

lemma example_read:
  "DashboardResponse_validate sample_library
     (example_payload ''start_dates'' ''zklend_position'' ''tokenAddress'' ''totalBalances'')
   = Inr example_response"
  by (rule example_top_level, rule example_products, rule example_position_by_wire_name)

lemma example_by_name:
  "DashboardResponse_validate sample_library
     (example_payload ''start_dates'' ''zklend_position'' ''token_address'' ''total_balances'')
   = Inr example_response"
  by (rule example_top_level, rule example_products, rule example_position_by_name)

lemma example_by_wire_name:
  "DashboardResponse_validate sample_library
     (example_payload ''startDates'' ''zklendPosition'' ''tokenAddress'' ''totalBalances'')
   = Inl (ValidationError [([Key ''start_dates''], ''Field required''),
                           ([Key ''zklend_position''], ''Field required'')])"
  by (simp add: DashboardResponse_validate_def example_payload_def required_field_def
        lookup_field_def dict_validator_def nullable_def of_library_def example_scalars
        at_loc_def both_def invalid_def)

lemma unparsable: "decimal_of_string ''abc'' = None"
  by (simp add: decimal_of_string_def strip_def is_space_def split_sign_def parse_number_def
        parse_exponent_def parse_special_def is_digit_def nat_of_digits_def digit_val_def
        lower_def Let_def)

lemma decimal_fix_round_up:
  assumes "c \<noteq> 0" "ndigits c = 29" "Etiny \<le> e + 1" "e + 1 \<le> Etop"
    and "5 < c mod 10" "ndigits (c div 10 + 1) \<le> 28"
  shows "decimal_fix (Finite sg c e) = Inr (Finite sg (c div 10 + 1) (e + 1))"
  using assms by (simp add: decimal_fix_def Let_def prec_def)

lemma long_ndigits:
  "ndigits 12345678901234567890123456789000000 = 35"
  "ndigits 12345678901234567890123456789 = 29"
  "ndigits 1234567890123456789012345679 = 28"
  "ndigits 1000000 = 7"
  by (simp_all add: ndigits_def str_nat.simps)

lemma long_parse:
  "decimal_of_string ''12345678901234567890123456789000000''
     = Some (Finite False 12345678901234567890123456789000000 0)"
  by (simp add: decimal_of_string_def strip_def is_space_def split_sign_def parse_number_def
        parse_exponent_def is_digit_def nat_of_digits_def digit_val_def Let_def)

lemma long_strip:
  "strip_zeros (12345678901234567890123456789000000 * 10 ^ nat 1 div 1000000) (0 - 0 - 1) (0 - 0)
     = (12345678901234567890123456789, 0)"
  by (simp add: strip_zeros.simps)

lemma long_div:
  "truediv (Finite False 12345678901234567890123456789000000 0) (Finite False 1000000 0)
     = Inr (Finite False 1234567890123456789012345679 1)"
proof -
  have "truediv (Finite False 12345678901234567890123456789000000 0) (Finite False 1000000 0)
          = decimal_fix (Finite (False \<noteq> False) 12345678901234567890123456789 0)"
    by (rule truediv_Finite [where shift = 1, OF _ _ _ _ _ long_strip])
       (simp_all add: long_ndigits prec_def)
  also have "\<dots> = Inr (Finite False (12345678901234567890123456789 div 10 + 1) (0 + 1))"
    unfolding simp_thms
    by (rule decimal_fix_round_up)
       (simp_all add: long_ndigits Etiny_def Etop_def Emin_def Emax_def prec_def)
  finally show ?thesis by simp
qed

lemma long_digits:
  "str_nat 1234567890123456789012345679 = ''1234567890123456789012345679''"
  by (simp add: str_nat.simps digit_char_def char_of_eq_iff)

lemma long_exponent: "signed_str 28 = ''+28''"
  by (simp add: signed_str_def str_nat.simps digit_char_def char_of_eq_iff)

lemma long_str:
  "decimal_str (Finite False 1234567890123456789012345679 1)
     = ''1.234567890123456789012345679E+28''"
proof -
  have "decimal_str (Finite False 1234567890123456789012345679 1)
          = sign_str False @ take (nat 1) ''1234567890123456789012345679''
              @ (''.'' @ drop (nat 1) ''1234567890123456789012345679'') @ (''E'' @ signed_str 28)"
    unfolding decimal_str_def decimal.case long_digits by (simp add: Let_def)
  then show ?thesis by (simp add: long_exponent sign_str_def)
qed

lemma long_convert_balance:
  "convert_balance sample_library ''0xTOK'' (PStr ''12345678901234567890123456789000000'')
     = Inr ''1.234567890123456789012345679E+28''"
proof -
  have d: "Decimal sample_library (PStr ''12345678901234567890123456789000000'')
             = Inr (Finite False 12345678901234567890123456789000000 0)"
    by (simp add: Decimal_def long_parse)
  have p: "decimal_of_int (10 ^ 6) = Finite False 1000000 0"
    by (simp add: decimal_of_int_def)
  show ?thesis
    by (simp only: convert_balance_def example_decimals sum.case d p long_div long_str)
qed

lemma long_balance:
  "convert_total_balances sample_library
      (PDict [(''0xTOK'', PStr ''12345678901234567890123456789000000'')])
     = Inr [(''0xTOK'', PStr ''1.234567890123456789012345679E+28'')]"
  by (simp add: convert_total_balances_def long_convert_balance)

lemma long_balance_parsed:
  "decimal_of_string ''1.234567890123456789012345679E+28''
     = Some (Finite False 1234567890123456789012345679 1)"
  using decimal_roundtrip [of False 1234567890123456789012345679 1] by (simp only: long_str)

text \<open>
  Claim C2, where the code departs from it.  The claim: a balance that does not parse
  fails the normalization as a validation error that carries the underlying message.
  The code, for every environment, whatever the decimals of the token and whatever
  follows in the dictionary: a string that \<^verbatim>\<open>Decimal\<close> cannot parse raises
  \<^verbatim>\<open>decimal.InvalidOperation\<close>, which is no \<^verbatim>\<open>ValueError\<close>, so the \<^verbatim>\<open>except\<close>
  clause does not catch it and it leaves the validator unwrapped, without the prefix and
  not as a validation error.  The \<^verbatim>\<open>ValueError\<close> of a decimals lookup that fails, on
  the same path, is wrapped as the claim says.  In both cases the normalization fails as
  a whole and returns no partial result.
\<close>

theorem unparsable_balance_is_not_wrapped:
  "(get_token_decimals L k = Inr d \<and> decimal_of_string s = None \<longrightarrow>
      convert_total_balances L (PDict ((k, PStr s) # rest)) = Inl conversion_syntax
      \<and> total_balances_validate L (PDict ((k, PStr s) # rest)) = Inl (Raised conversion_syntax))
   \<and> (get_token_decimals L k = Inl (ValueError m) \<longrightarrow>
      total_balances_validate L (PDict ((k, v) # rest))
        = Inl (ValidationError [([], ''Value error, Error in balance conversion: '' @ m)]))"
  by (simp add: convert_total_balances_def convert_balance_def Decimal_def
        total_balances_validate_def raised_def field_validator_def and_then_def
        conversion_syntax_def invalid_def)

text \<open>
  Both cases in the sample environment: the balance \<^verbatim>\<open>"abc"\<close> of the known token, and
  a token that the lookup does not know.
\<close>

theorem unparsable_balance_is_not_wrapped_witness:
  "convert_total_balances sample_library (PDict [(''0xTOK'', PStr ''abc'')]) = Inl conversion_syntax
   \<and> total_balances_validate sample_library (PDict [(''0xTOK'', PStr ''abc'')])
       = Inl (Raised conversion_syntax)
   \<and> total_balances_validate sample_library (PDict [(''0xNO'', PStr ''1'')])
       = Inl (ValidationError
           [([], ''Value error, Error in balance conversion: Token with address 0xNO not found'')])"
proof -
  have n: "get_token_decimals sample_library ''0xNO''
             = Inl (ValueError ''Token with address 0xNO not found'')"
    by (simp add: sample_library_def)
  show ?thesis
    using unparsable_balance_is_not_wrapped
            [of sample_library "''0xTOK''" 6 "''abc''" "[]" "''Token with address 0xNO not found''"]
          unparsable_balance_is_not_wrapped
            [of sample_library "''0xNO''" 6 "''abc''" "[]" "''Token with address 0xNO not found''"
                "PStr ''1''"]
    by (simp add: example_decimals unparsable n)
qed

text \<open>
  Claim C3 as stated fails: a raw balance of 35 digits at 6 decimals has the exact
  quotient \<open>12345678901234567890123456789\<close> of 29 digits, which the context rounds to 28
  digits; the rendered string parses to \<open>12345678901234567890123456790\<close>.
\<close>

theorem convert_total_balances_rounds:
  "convert_total_balances sample_library
      (PDict [(''0xTOK'', PStr ''12345678901234567890123456789000000'')])
     = Inr [(''0xTOK'', PStr ''1.234567890123456789012345679E+28'')]
   \<and> decimal_of_string ''1.234567890123456789012345679E+28''
     = Some (Finite False 1234567890123456789012345679 1)
   \<and> decimal_value (Finite False 1234567890123456789012345679 1)
     = Some 12345678901234567890123456790
   \<and> (12345678901234567890123456790 :: rat) \<noteq> 12345678901234567890123456789000000 / 10 ^ 6"
proof -
  have "decimal_value (Finite False 1234567890123456789012345679 1)
          = Some 12345678901234567890123456790"
    by (simp add: decimal_value_def)
  moreover have "(12345678901234567890123456790 :: rat) \<noteq> 12345678901234567890123456789000000 / 10 ^ 6"
    by simp
  ultimately show ?thesis
    by (simp only: long_balance long_balance_parsed simp_thms)
qed

text \<open>
  Claim C4, amended.  With the top-level fields of the end-to-end example under the
  names the model reads (\<^verbatim>\<open>start_dates\<close>, \<^verbatim>\<open>zklend_position\<close>) and 6 decimals for
  \<^verbatim>\<open>0xTOK\<close>, validation succeeds; the health ratio of the first product is
  \<^verbatim>\<open>"2.0"\<close> and the total balance of its position at \<^verbatim>\<open>0xTOK\<close> is \<^verbatim>\<open>"1"\<close>.
\<close>

theorem end_to_end_example:
  "DashboardResponse_validate sample_library
     (example_payload ''start_dates'' ''zklend_position'' ''tokenAddress'' ''totalBalances'')
     = Inr example_response
   \<and> health_ratio (products (zklend_position example_response) ! 0) = ''2.0''
   \<and> map_of (total_balances (positions (products (zklend_position example_response) ! 0) ! 0))
         ''0xTOK'' = Some ''1''"
  by (simp add: example_read) (simp add: example_response_def)

text \<open>
  Claim C4 as stated fails twice over: under the keys \<^verbatim>\<open>startDates\<close> and
  \<^verbatim>\<open>zklendPosition\<close> validation reports both fields missing, and the balance
  \<^verbatim>\<open>"1000000"\<close> at 6 decimals is rendered \<^verbatim>\<open>"1"\<close>, not \<^verbatim>\<open>"1.000000"\<close>.
\<close>

theorem end_to_end_example_as_written:
  "DashboardResponse_validate sample_library
     (example_payload ''startDates'' ''zklendPosition'' ''tokenAddress'' ''totalBalances'')
     = Inl (ValidationError [([Key ''start_dates''], ''Field required''),
                             ([Key ''zklend_position''], ''Field required'')])
   \<and> convert_total_balances sample_library (PDict [(''0xTOK'', PStr ''1000000'')])
     = Inr [(''0xTOK'', PStr ''1'')]
   \<and> ''1'' \<noteq> ''1.000000''"
  by (simp add: example_by_wire_name example_balance)

text \<open>
  The amended claim C5 at the end-to-end example.
\<close>

theorem DashboardResponse_accepts_wire_positions_witness:
  "payload_internal
     (example_payload ''start_dates'' ''zklend_position'' ''token_address'' ''total_balances'')
   \<and> payload_to_wire
       (example_payload ''start_dates'' ''zklend_position'' ''token_address'' ''total_balances'')
     = example_payload ''start_dates'' ''zklend_position'' ''tokenAddress'' ''totalBalances''
   \<and> DashboardResponse_validate sample_library
       (payload_to_wire
          (example_payload ''start_dates'' ''zklend_position'' ''token_address'' ''total_balances''))
     = Inr example_response"
proof -
  let ?p = "example_payload ''start_dates'' ''zklend_position'' ''token_address'' ''total_balances''"
  have h: "payload_internal ?p"
    by (simp add: payload_internal_def key_holds_def dict_holds_def list_holds_def
          product_internal_def no_wire_keys_def example_payload_def example_product_def
          example_position_def)
  have w: "payload_to_wire ?p
             = example_payload ''start_dates'' ''zklend_position'' ''tokenAddress'' ''totalBalances''"
    by (simp add: payload_to_wire_def map_key_def in_dict_def in_list_def product_to_wire_def
          to_wire_names_def wire_key_def example_payload_def example_product_def
          example_position_def)
  have "DashboardResponse_validate sample_library (payload_to_wire ?p) = Inr example_response"
    using DashboardResponse_accepts_wire_positions [OF h, of sample_library example_response]
      example_by_name by simp
  then show ?thesis using h w by simp
qed

text \<open>
  Claim C5 as stated fails: the example validates under the names of the fields, and is
  rejected once the wire names \<^verbatim>\<open>startDates\<close> and \<^verbatim>\<open>zklendPosition\<close> are substituted
  at the top level.
\<close>

theorem top_level_wire_names_are_rejected:
  "DashboardResponse_validate sample_library
     (example_payload ''start_dates'' ''zklend_position'' ''token_address'' ''total_balances'')
     = Inr example_response
   \<and> isl (DashboardResponse_validate sample_library
            (example_payload ''startDates'' ''zklendPosition'' ''token_address'' ''total_balances''))"
proof -
  have "map_of (example_payload ''startDates'' ''zklendPosition'' ''token_address'' ''total_balances'')
          ''start_dates'' = None"
    by (simp add: example_payload_def)
  then have "isl (DashboardResponse_validate sample_library
            (example_payload ''startDates'' ''zklendPosition'' ''token_address'' ''total_balances''))"
    by (auto simp: DashboardResponse_validate_def outcome_simps lookup_field_def
             outcome_None [symmetric] split: option.splits)
  then show ?thesis by (simp add: example_by_name)
qed

text \<open>
  Claim C6 at the position of the end-to-end example.
\<close>

theorem Position_accepts_both_spellings_witness:
  "no_wire_keys [(''data'', PDict [(''collateral'', PBool True), (''debt'', PBool False)]),
                 (''token_address'', PStr ''0xTOK''),
                 (''total_balances'', PDict [(''0xTOK'', PStr ''1000000'')])]
   \<and> Position_validate sample_library
       (PDict (to_wire_names
          [(''data'', PDict [(''collateral'', PBool True), (''debt'', PBool False)]),
           (''token_address'', PStr ''0xTOK''),
           (''total_balances'', PDict [(''0xTOK'', PStr ''1000000'')])]))
     = Inr \<lparr>data = \<lparr>collateral = True, debt = False\<rparr>, token_address = Some ''0xTOK'',
             total_balances = [(''0xTOK'', ''1'')]\<rparr>"
proof -
  let ?d = "[(''data'', PDict [(''collateral'', PBool True), (''debt'', PBool False)]),
             (''token_address'', PStr ''0xTOK''),
             (''total_balances'', PDict [(''0xTOK'', PStr ''1000000'')])]"
  have h: "no_wire_keys ?d" by (simp add: no_wire_keys_def)
  have e: "Position_validate sample_library (PDict ?d)
             = Inr \<lparr>data = \<lparr>collateral = True, debt = False\<rparr>, token_address = Some ''0xTOK'',
                     total_balances = [(''0xTOK'', ''1'')]\<rparr>"
    using example_position_by_name by (simp add: example_position_def)
  show ?thesis
    using Position_accepts_both_spellings [OF h, of sample_library] e h by simp
qed


end
